theory Spec2Isabelle
  imports Main
begin

section \<open>Resolving a GraphQL request into an operation (graphql/schema/request.go)\<close>

text \<open>
  The file under verification has two functions: \<^verbatim>\<open>(*schema).Operation\<close>, which parses and
  validates a request, picks the operation to run and expands its fragments, and
  \<^verbatim>\<open>recursivelyExpandFragmentSelections\<close>, which rewrites the selection set of one field and
  of every field below it.

  Go pointers to syntax-tree nodes are modelled as the nodes themselves: the in-place
  assignment \<^verbatim>\<open>field.SelectionSet = ...\<close> becomes a function that returns the rewritten field.
  A nil pointer is \<open>None\<close>, and dereferencing it is the outcome \<open>Panics\<close>.

  In Go a field of a fragment definition that is reached through two spreads is one node,
  rewritten in place at each visit. Here every occurrence is rewritten on its own, and
  \<^verbatim>\<open>collectFields\<close> is always given the document as the parser returned it. For the same
  reason the \<open>doc\<close> component of a returned operation is the document before the
  rewriting, where Go has the rewritten one; the statements below are about the \<open>op\<close>
  component, which holds the rewritten selection tree.
\<close>

subsection \<open>The syntax tree of the parser library (package ast)\<close>

text \<open>Values of variables and arguments (Go: \<^verbatim>\<open>interface{}\<close>); the code never inspects them.\<close>

datatype gvalue = VNull | VBool bool | VInt int | VString string | VList "gvalue list"

type_synonym variables = "string \<rightharpoonup> gvalue"

text \<open>\<^verbatim>\<open>ast.DefinitionKind\<close>.\<close>

datatype DefinitionKind = Scalar | Object | Interface | UnionKind | Enum | InputObject

text \<open>\<^verbatim>\<open>ast.Definition\<close>: a named type of the schema. Only \<^verbatim>\<open>Kind\<close> and \<^verbatim>\<open>Name\<close> are read.\<close>

record ast_Definition =
  Kind :: DefinitionKind
  def_Name :: string

text \<open>
  \<^verbatim>\<open>ast.Type\<close>: a named type, or a list type around an element type.
  \<^verbatim>\<open>Name()\<close> returns \<^verbatim>\<open>NamedType\<close> when it is not empty and the name of \<^verbatim>\<open>Elem\<close> otherwise;
  when \<^verbatim>\<open>Elem\<close> is nil the call dereferences a nil pointer.
\<close>

datatype ast_Type = ast_Type (NamedType: string) (Elem: "ast_Type option") (NonNull: bool)

fun type_Name :: "ast_Type \<Rightarrow> string option" where
  "type_Name (ast_Type nt el nn) =
     (if nt \<noteq> [] then Some nt
      else (case el of None \<Rightarrow> None | Some t \<Rightarrow> type_Name t))"

text \<open>\<^verbatim>\<open>ast.FieldDefinition\<close>: the declaration of a field in the schema.\<close>

record ast_FieldDefinition =
  fdef_Name :: string
  fdef_Type :: ast_Type

text \<open>
  \<^verbatim>\<open>ast.Field\<close>, and \<^verbatim>\<open>ast.Selection\<close> with its three implementations
  \<^verbatim>\<open>*ast.Field\<close>, \<^verbatim>\<open>*ast.FragmentSpread\<close>, \<^verbatim>\<open>*ast.InlineFragment\<close>.
\<close>

datatype ast_Field =
  ast_Field (Alias: string) (Name: string) (Arguments: "(string \<times> gvalue) list")
            (Directives: "string list") (SelectionSet: "Selection list")
            (Definition: "ast_FieldDefinition option")
and Selection =
    FieldSel ast_Field
  | FragmentSpread (spread_Name: string)
  | InlineFragment (TypeCondition: string) (frag_SelectionSet: "Selection list")

text \<open>The assignment \<^verbatim>\<open>field.SelectionSet = sels\<close>.\<close>

fun assign_SelectionSet :: "ast_Field \<Rightarrow> Selection list \<Rightarrow> ast_Field" where
  "assign_SelectionSet (ast_Field a n args ds ss d) sels = ast_Field a n args ds sels d"

datatype OperationType = Query_op | Mutation_op | Subscription_op

record ast_OperationDefinition =
  op_Operation :: OperationType
  op_Name :: string
  VariableDefinitions :: "(string \<times> ast_Type) list"
  op_SelectionSet :: "Selection list"

record ast_FragmentDefinition =
  fragdef_Name :: string
  fragdef_TypeCondition :: string
  fragdef_SelectionSet :: "Selection list"

record ast_QueryDocument =
  Operations :: "ast_OperationDefinition list"
  Fragments :: "ast_FragmentDefinition list"

text \<open>
  \<^verbatim>\<open>ast.Schema\<close>: the three tables the expander reads. A Go map lookup of an absent key
  gives the zero value: a nil \<^verbatim>\<open>*Definition\<close> for \<^verbatim>\<open>Types\<close>, an empty slice for the other two.
\<close>

record ast_Schema =
  Types :: "string \<rightharpoonup> ast_Definition"
  PossibleTypes :: "string \<rightharpoonup> ast_Definition list"
  Implements :: "string \<rightharpoonup> ast_Definition list"

definition slice_at :: "('k \<rightharpoonup> 'v list) \<Rightarrow> 'k \<Rightarrow> 'v list" where
  "slice_at m k = (case m k of None \<Rightarrow> [] | Some vs \<Rightarrow> vs)"

subsection \<open>Requests, errors, operations (package schema)\<close>

record Request =
  Query :: string
  OperationName :: string
  Variables :: variables

text \<open>The wrapper \<^verbatim>\<open>schema\<close> around the parsed schema (field \<^verbatim>\<open>schema *ast.Schema\<close>).\<close>

record schema =
  schema :: ast_Schema

text \<open>
  The struct \<^verbatim>\<open>operation\<close> built at the end of \<^verbatim>\<open>Operation\<close>. In Go \<^verbatim>\<open>op\<close> points into \<^verbatim>\<open>doc\<close>;
  here \<open>op\<close> holds the selected operation with its rewritten selection tree and \<open>doc\<close>
  the document as the parser returned it.
\<close>

record operation =
  op :: ast_OperationDefinition
  vars :: variables
  query :: string
  doc :: ast_QueryDocument
  inSchema :: schema

text \<open>\<^verbatim>\<open>gqlerror.Error\<close>: a message and the places in the query text it refers to.\<close>

record gqlerror =
  Message :: string
  Locations :: "(nat \<times> nat) list"

text \<open>
  The values of Go's \<^verbatim>\<open>error\<close> that \<^verbatim>\<open>Operation\<close> returns: an error made by
  \<^verbatim>\<open>errors.New\<close> or \<^verbatim>\<open>errors.Errorf\<close> (a message only), a \<^verbatim>\<open>*gqlerror.Error\<close>, or a
  \<^verbatim>\<open>gqlerror.List\<close>.
\<close>

datatype error = Fundamental string | GqlError gqlerror | GqlList "gqlerror list"

text \<open>
  How a call ends: it returns a value, it panics, or the bound on the depth of the
  recursion is used up before it returns.
\<close>

datatype 'a outcome = Returns 'a | Panics | Unfinished

text \<open>A \<^verbatim>\<open>for ... range\<close> loop over a slice that calls \<open>g\<close> on each element in order.\<close>

fun each :: "('a \<Rightarrow> 'b outcome) \<Rightarrow> 'a list \<Rightarrow> 'b list outcome" where
  "each g [] = Returns []"
| "each g (x # xs) =
     (case g x of
        Returns y \<Rightarrow>
          (case each g xs of
             Returns ys \<Rightarrow> Returns (y # ys)
           | Panics \<Rightarrow> Panics
           | Unfinished \<Rightarrow> Unfinished)
      | Panics \<Rightarrow> Panics
      | Unfinished \<Rightarrow> Unfinished)"

subsection \<open>The collaborators that are not in this file\<close>

text \<open>
  \<^verbatim>\<open>requestContext\<close> and \<^verbatim>\<open>collectedField\<close> are the argument and the result of
  \<^verbatim>\<open>collectFields\<close>. The expander reads only the \<^verbatim>\<open>Field\<close> of a collected field.
\<close>

record requestContext =
  RawQuery :: string
  ctx_Variables :: variables
  Doc :: ast_QueryDocument

record collectedField =
  cf_Field :: ast_Field
  Selections :: "Selection list"

text \<open>
  The parser, the validator and \<^verbatim>\<open>collectFields\<close> are parameters of the model:
  \<^item> \<open>ParseQuery\<close> is \<^verbatim>\<open>parser.ParseQuery\<close>: a syntax error or a document;
  \<^item> \<open>Validate\<close> is \<^verbatim>\<open>validator.Validate\<close>: the list of all violations;
  \<^item> \<open>VariableValues\<close> is \<^verbatim>\<open>validator.VariableValues\<close>: an error or the coerced variables;
  \<^item> \<open>collectFields\<close> gives the collected fields, or \<open>None\<close> when it panics.
\<close>

record collaborators =
  ParseQuery :: "string \<Rightarrow> gqlerror + ast_QueryDocument"
  Validate :: "ast_Schema \<Rightarrow> ast_QueryDocument \<Rightarrow> gqlerror list"
  VariableValues ::
    "ast_Schema \<Rightarrow> ast_OperationDefinition \<Rightarrow> variables \<Rightarrow> gqlerror + variables"
  collectFields ::
    "requestContext \<Rightarrow> Selection list \<Rightarrow> string list \<Rightarrow> collectedField list option"

subsection \<open>recursivelyExpandFragmentSelections\<close>

text \<open>
  Lines 90 to 106: the names of the types a fragment on this field may be conditioned on.
  \<open>Returns None\<close> is the \<^verbatim>\<open>default\<close> branch of the switch, which returns from the expander.
  The panics are the nil dereferences of \<^verbatim>\<open>field.Definition\<close>, of \<^verbatim>\<open>Type.Name()\<close> and of
  \<^verbatim>\<open>Types[typeName]\<close>. The second argument is \<^verbatim>\<open>op.inSchema\<close>, the only part of \<^verbatim>\<open>op\<close> these lines read.
\<close>

definition satisfies :: "ast_Field \<Rightarrow> schema \<Rightarrow> string list option outcome" where
  "satisfies field s =
     (case Definition field of
        None \<Rightarrow> Panics
      | Some fd \<Rightarrow>
          (case type_Name (fdef_Type fd) of
             None \<Rightarrow> Panics
           | Some typeName \<Rightarrow>
               (case Types (schema s) typeName of
                  None \<Rightarrow> Panics
                | Some td \<Rightarrow>
                    (case Kind td of
                       Interface \<Rightarrow>
                         Returns (Some (typeName #
                           map def_Name (slice_at (PossibleTypes (schema s)) typeName)))
                     | UnionKind \<Rightarrow>
                         Returns (Some (typeName #
                           map def_Name (slice_at (PossibleTypes (schema s)) typeName)))
                     | Object \<Rightarrow>
                         Returns (Some (typeName #
                           map def_Name (slice_at (Implements (schema s)) typeName)))
                     | _ \<Rightarrow> Returns None))))"

text \<open>
  The expander. The first argument bounds the depth of the recursion; the second is the
  collaborators record, of which only \<open>collectFields\<close> is used.
\<close>

fun recursivelyExpandFragmentSelections ::
  "nat \<Rightarrow> collaborators \<Rightarrow> ast_Field \<Rightarrow> operation \<Rightarrow> ast_Field outcome" where
  "recursivelyExpandFragmentSelections 0 ext field opn = Unfinished"
| "recursivelyExpandFragmentSelections (Suc n) ext field opn =
     (case satisfies field (inSchema opn) of
        Panics \<Rightarrow> Panics
      | Unfinished \<Rightarrow> Unfinished
      | Returns None \<Rightarrow> Returns field
      | Returns (Some sat) \<Rightarrow>
          (case collectFields ext
                  \<lparr>RawQuery = query opn, ctx_Variables = vars opn, Doc = doc opn\<rparr>
                  (SelectionSet field) sat of
             None \<Rightarrow> Panics
           | Some collectedFields \<Rightarrow>
               (case each (\<lambda>f. recursivelyExpandFragmentSelections n ext f opn)
                       (map cf_Field collectedFields) of
                  Returns fs \<Rightarrow> Returns (assign_SelectionSet field (map FieldSel fs))
                | Panics \<Rightarrow> Panics
                | Unfinished \<Rightarrow> Unfinished)))"

subsection \<open>Operation\<close>

text \<open>
  Modelled from the spec: \<^verbatim>\<open>ast.OperationList.ForName\<close> belongs to the parser library and
  is not in the file. The spec has the sole operation of a document selected when no
  name is supplied, and otherwise the operation whose name matches; no match is nil.
\<close>

definition ForName ::
  "ast_OperationDefinition list \<Rightarrow> string \<Rightarrow> ast_OperationDefinition option" where
  "ForName l name =
     (if name = [] \<and> length l = 1 then Some (l ! 0)
      else find (\<lambda>it. op_Name it = name) l)"

text \<open>
  Line 79, the body of the loop over the top-level selections: the type assertion
  \<^verbatim>\<open>s.(*ast.Field)\<close> panics on a selection that is not a field; on a field the expander runs.
\<close>

fun expandTopLevel :: "nat \<Rightarrow> collaborators \<Rightarrow> operation \<Rightarrow> Selection \<Rightarrow> Selection outcome" where
  "expandTopLevel n ext opn (FieldSel f) =
     (case recursivelyExpandFragmentSelections n ext f opn of
        Returns f' \<Rightarrow> Returns (FieldSel f')
      | Panics \<Rightarrow> Panics
      | Unfinished \<Rightarrow> Unfinished)"
| "expandTopLevel n ext opn (FragmentSpread nm) = Panics"
| "expandTopLevel n ext opn (InlineFragment tc ss) = Panics"

definition no_query_error :: error where
  "no_query_error = Fundamental ''no query string supplied in request''"

definition name_required_error :: error where
  "name_required_error =
     Fundamental ''Operation name must by supplied when query has more than 1 operation.''"

definition not_present_error :: "string \<Rightarrow> error" where
  "not_present_error name =
     Fundamental (''Supplied operation name '' @ name @ '' isn't present in the request.'')"

text \<open>
  \<^verbatim>\<open>func (s *schema) Operation(req *Request) (Operation, error)\<close>. The receiver and the
  request are pointers and may be nil. The receiver is first dereferenced at line 49
  (\<^verbatim>\<open>s.schema\<close>). The result is \<open>Inl\<close> for \<^verbatim>\<open>(nil, err)\<close> and \<open>Inr\<close> for \<^verbatim>\<open>(operation, nil)\<close>.
\<close>

definition Operation ::
  "nat \<Rightarrow> collaborators \<Rightarrow> schema option \<Rightarrow> Request option \<Rightarrow> (error + operation) outcome" where
  "Operation n ext s req =
     (case req of
        None \<Rightarrow> Returns (Inl no_query_error)
      | Some r \<Rightarrow>
          if Query r = [] then Returns (Inl no_query_error)
          else
            (case ParseQuery ext (Query r) of
               Inl gqlErr \<Rightarrow> Returns (Inl (GqlError gqlErr))
             | Inr d \<Rightarrow>
                 (case s of
                    None \<Rightarrow> Panics
                  | Some sch \<Rightarrow>
                      if length (Validate ext (schema sch) d) \<noteq> 0
                      then Returns (Inl (GqlList (Validate ext (schema sch) d)))
                      else if length (Operations d) > 1 \<and> OperationName r = []
                      then Returns (Inl name_required_error)
                      else
                        (case ForName (Operations d) (OperationName r) of
                           None \<Rightarrow> Returns (Inl (not_present_error (OperationName r)))
                         | Some opdef \<Rightarrow>
                             (case VariableValues ext (schema sch) opdef (Variables r) of
                                Inl gqlErr \<Rightarrow> Returns (Inl (GqlError gqlErr))
                              | Inr vs \<Rightarrow>
                                  (case each (expandTopLevel n ext
                                          \<lparr>op = opdef, vars = vs, query = Query r, doc = d,
                                           inSchema = sch\<rparr>)
                                        (op_SelectionSet opdef) of
                                     Returns sels \<Rightarrow>
                                       Returns (Inr \<lparr>op = opdef\<lparr>op_SelectionSet := sels\<rparr>,
                                                    vars = vs, query = Query r, doc = d,
                                                    inSchema = sch\<rparr>)
                                   | Panics \<Rightarrow> Panics
                                   | Unfinished \<Rightarrow> Unfinished))))))"

subsection \<open>Properties of selection trees\<close>

text \<open>Every selection of the tree is a field: the walk of the expanded tree.\<close>

fun only_fields_in :: "ast_Field \<Rightarrow> bool"
and only_fields :: "Selection \<Rightarrow> bool" where
  "only_fields_in (ast_Field a n args ds ss d) = (\<forall>x \<in> set ss. only_fields x)"
| "only_fields (FieldSel f) = only_fields_in f"
| "only_fields (FragmentSpread nm) = False"
| "only_fields (InlineFragment tc ss) = False"

text \<open>
  The validator's rule that a field whose type is not an object, an interface or a
  union has no selection set, at every field of a tree.
\<close>

fun leaf_rule_in :: "schema \<Rightarrow> ast_Field \<Rightarrow> bool"
and leaf_rule :: "schema \<Rightarrow> Selection \<Rightarrow> bool" where
  "leaf_rule_in s (ast_Field a n args ds ss d) =
     ((satisfies (ast_Field a n args ds ss d) s = Returns None \<longrightarrow> ss = []) \<and>
      (\<forall>x \<in> set ss. leaf_rule s x))"
| "leaf_rule s (FieldSel f) = leaf_rule_in s f"
| "leaf_rule s (FragmentSpread nm) = True"
| "leaf_rule s (InlineFragment tc ss) = (\<forall>x \<in> set ss. leaf_rule s x)"

definition document_leaf_rule :: "schema \<Rightarrow> ast_QueryDocument \<Rightarrow> bool" where
  "document_leaf_rule s d =
     ((\<forall>od \<in> set (Operations d). \<forall>x \<in> set (op_SelectionSet od). leaf_rule s x) \<and>
      (\<forall>fr \<in> set (Fragments d). \<forall>x \<in> set (fragdef_SelectionSet fr). leaf_rule s x))"

text \<open>
  What the expander needs of \<^verbatim>\<open>collectFields\<close>: from selections that obey the leaf rule,
  in a document that obeys it, it collects fields that obey it.
\<close>

definition keeps_leaf_rule :: "collaborators \<Rightarrow> schema \<Rightarrow> bool" where
  "keeps_leaf_rule ext s =
     (\<forall>ctx sels sat cs.
        document_leaf_rule s (Doc ctx) \<longrightarrow> (\<forall>x \<in> set sels. leaf_rule s x) \<longrightarrow>
        collectFields ext ctx sels sat = Some cs \<longrightarrow>
        (\<forall>c \<in> set cs. leaf_rule_in s (cf_Field c)))"

text \<open>
  What the expander needs of the validator: a document it accepts obeys the leaf rule.
\<close>

definition enforces_leaf_rule :: "collaborators \<Rightarrow> schema \<Rightarrow> bool" where
  "enforces_leaf_rule ext s =
     (\<forall>d. Validate ext (schema s) d = [] \<longrightarrow> document_leaf_rule s d)"

text \<open>
  What a document that passed validation gives the expander, stated on the fields it can
  come to (\<open>known\<close>): the declared type of such a field is in the schema; a field of a
  leaf type has no selection set; \<^verbatim>\<open>collectFields\<close> returns for its selection set, and
  every field it collects is again such a field, of smaller \<open>rank\<close>. The rank is the
  depth of nesting with the fragments unfolded, which is finite because validation rejects
  a fragment that spreads itself.
\<close>

definition expansion_contract ::
  "collaborators \<Rightarrow> operation \<Rightarrow> (ast_Field \<Rightarrow> bool) \<Rightarrow> (ast_Field \<Rightarrow> nat) \<Rightarrow> bool" where
  "expansion_contract ext opn known rank =
     (\<forall>f. known f \<longrightarrow>
        satisfies f (inSchema opn) \<noteq> Panics \<and>
        (satisfies f (inSchema opn) = Returns None \<longrightarrow> SelectionSet f = []) \<and>
        (\<forall>sat. satisfies f (inSchema opn) = Returns (Some sat) \<longrightarrow>
           (\<exists>cs. collectFields ext
                    \<lparr>RawQuery = query opn, ctx_Variables = vars opn, Doc = doc opn\<rparr>
                    (SelectionSet f) sat = Some cs \<and>
                 (\<forall>c \<in> set cs. known (cf_Field c) \<and> rank (cf_Field c) < rank f))))"

text \<open>The attributes of a field other than its selection set.\<close>

definition same_attributes :: "ast_Field \<Rightarrow> ast_Field \<Rightarrow> bool" where
  "same_attributes f g =
     (Alias f = Alias g \<and> Name f = Name g \<and> Arguments f = Arguments g \<and>
      Directives f = Directives g \<and> Definition f = Definition g)"

text \<open>A top-level selection and what the loop of lines 78 to 80 leaves in its place.\<close>

definition same_top_level :: "Selection \<Rightarrow> Selection \<Rightarrow> bool" where
  "same_top_level x y =
     (case (x, y) of
        (FieldSel f, FieldSel g) \<Rightarrow> same_attributes f g
      | _ \<Rightarrow> False)"

subsection \<open>A model of collectFields\<close>

text \<open>
  Modelled from the spec: \<^verbatim>\<open>collectFields\<close> is defined in another file of the package.
  Section 4.2 step 2 of the spec: a plain field is kept; a fragment spread or an inline
  fragment is included only if its type condition is in the satisfies list, and then its
  own selection set contributes its fields; fields with the same response key are merged
  into one position, their sub-selections joined. A spread whose fragment is not in the
  document is fatal (\<open>None\<close>), as is nesting of fragments deeper than the bound \<open>n\<close>.
\<close>

fun getOrCreateField ::
  "collectedField list \<Rightarrow> ast_Field \<Rightarrow> collectedField list" where
  "getOrCreateField [] f = [\<lparr>cf_Field = f, Selections = SelectionSet f\<rparr>]"
| "getOrCreateField (c # cs) f =
     (if Alias (cf_Field c) = Alias f
      then c\<lparr>Selections := Selections c @ SelectionSet f\<rparr> # cs
      else c # getOrCreateField cs f)"

fun collectInto ::
  "nat \<Rightarrow> ast_QueryDocument \<Rightarrow> string list \<Rightarrow> collectedField list \<Rightarrow> Selection list \<Rightarrow>
   collectedField list option" where
  "collectInto n d sat acc [] = Some acc"
| "collectInto n d sat acc (FieldSel f # rest) =
     collectInto n d sat (getOrCreateField acc f) rest"
| "collectInto 0 d sat acc (FragmentSpread nm # rest) = None"
| "collectInto (Suc n) d sat acc (FragmentSpread nm # rest) =
     (case find (\<lambda>fr. fragdef_Name fr = nm) (Fragments d) of
        None \<Rightarrow> None
      | Some fr \<Rightarrow>
          if fragdef_TypeCondition fr \<in> set sat
          then (case collectInto n d sat acc (fragdef_SelectionSet fr) of
                  None \<Rightarrow> None
                | Some acc' \<Rightarrow> collectInto (Suc n) d sat acc' rest)
          else collectInto (Suc n) d sat acc rest)"
| "collectInto 0 d sat acc (InlineFragment tc ss # rest) = None"
| "collectInto (Suc n) d sat acc (InlineFragment tc ss # rest) =
     (if tc \<in> set sat
      then (case collectInto n d sat acc ss of
              None \<Rightarrow> None
            | Some acc' \<Rightarrow> collectInto (Suc n) d sat acc' rest)
      else collectInto (Suc n) d sat acc rest)"

definition collectFields_model ::
  "nat \<Rightarrow> requestContext \<Rightarrow> Selection list \<Rightarrow> string list \<Rightarrow> collectedField list option" where
  "collectFields_model n ctx sels sat = collectInto n (Doc ctx) sat [] sels"

subsection \<open>The example of the spec, and stand-ins for the parser and the validator\<close>

text \<open>
  The schema of the end-to-end example:
  \<^verbatim>\<open>type Query { pet: Animal } interface Animal { name: String }
  type Dog implements Animal { name: String breed: String }\<close>.
\<close>

definition animals :: schema where
  "animals = \<lparr>schema = \<lparr>
     Types = map_of
       [(''Query'', \<lparr>Kind = Object, def_Name = ''Query''\<rparr>),
        (''Animal'', \<lparr>Kind = Interface, def_Name = ''Animal''\<rparr>),
        (''Dog'', \<lparr>Kind = Object, def_Name = ''Dog''\<rparr>),
        (''String'', \<lparr>Kind = Scalar, def_Name = ''String''\<rparr>)],
     PossibleTypes = map_of
       [(''Animal'', [\<lparr>Kind = Object, def_Name = ''Dog''\<rparr>]),
        (''Dog'', [\<lparr>Kind = Object, def_Name = ''Dog''\<rparr>]),
        (''Query'', [\<lparr>Kind = Object, def_Name = ''Query''\<rparr>])],
     Implements = map_of
       [(''Dog'', [\<lparr>Kind = Interface, def_Name = ''Animal''\<rparr>])]\<rparr>\<rparr>"

definition named :: "string \<Rightarrow> ast_Type" where
  "named tn = ast_Type tn None False"

definition string_field :: "string \<Rightarrow> Selection list \<Rightarrow> ast_Field" where
  "string_field nm ss =
     ast_Field nm nm [] [] ss (Some \<lparr>fdef_Name = nm, fdef_Type = named ''String''\<rparr>)"

definition pet_field :: "Selection list \<Rightarrow> ast_Field" where
  "pet_field ss =
     ast_Field ''pet'' ''pet'' [] [] ss (Some \<lparr>fdef_Name = ''pet'', fdef_Type = named ''Animal''\<rparr>)"

definition query_of :: "string \<Rightarrow> (string \<times> ast_Type) list \<Rightarrow> Selection list \<Rightarrow>
    ast_OperationDefinition" where
  "query_of nm vds ss =
     \<lparr>op_Operation = Query_op, op_Name = nm, VariableDefinitions = vds, op_SelectionSet = ss\<rparr>"

text \<open>The selection set \<^verbatim>\<open>{ name ... on Dog { breed } }\<close> and the documents used below.\<close>

definition name_and_dog_breed :: "Selection list" where
  "name_and_dog_breed =
     [FieldSel (string_field ''name'' []),
      InlineFragment ''Dog'' [FieldSel (string_field ''breed'' [])]]"

definition parsed_documents :: "(string \<times> ast_QueryDocument) list" where
  "parsed_documents =
     [(''{ pet { name ... on Dog { breed } } }'',
       \<lparr>Operations = [query_of [] [] [FieldSel (pet_field name_and_dog_breed)]],
        Fragments = []\<rparr>),
      (''query Pets { pet { name } }'',
       \<lparr>Operations = [query_of ''Pets'' [] [FieldSel (pet_field [FieldSel (string_field ''name'' [])])]],
        Fragments = []\<rparr>),
      (''query Pets($all: Boolean!) { pet @include(if: $all) { name } }'',
       \<lparr>Operations = [query_of ''Pets'' [(''all'', ast_Type ''Boolean'' None True)]
                        [FieldSel (ast_Field ''pet'' ''pet'' [] [''include'']
                           [FieldSel (string_field ''name'' [])]
                           (Some \<lparr>fdef_Name = ''pet'', fdef_Type = named ''Animal''\<rparr>))]],
        Fragments = []\<rparr>),
      (''query Pets { pet { name { first } } }'',
       \<lparr>Operations = [query_of ''Pets'' []
                        [FieldSel (pet_field [FieldSel (string_field ''name''
                           [FieldSel (ast_Field ''first'' ''first'' [] [] [] None)])])]],
        Fragments = []\<rparr>),
      (''{ ...PetName } fragment PetName on Query { pet { name } }'',
       \<lparr>Operations = [query_of [] [] [FragmentSpread ''PetName'']],
        Fragments = [\<lparr>fragdef_Name = ''PetName'', fragdef_TypeCondition = ''Query'',
                      fragdef_SelectionSet =
                        [FieldSel (pet_field [FieldSel (string_field ''name'' [])])]\<rparr>]\<rparr>),
      (''{ pet { name } ... on Query { pet { name } } }'',
       \<lparr>Operations = [query_of [] []
                        [FieldSel (pet_field [FieldSel (string_field ''name'' [])]),
                         InlineFragment ''Query''
                           [FieldSel (pet_field [FieldSel (string_field ''name'' [])])]]],
        Fragments = []\<rparr>),
      (''query Pets { pet { name } } query Dogs { pet { name } }'',
       \<lparr>Operations =
          [query_of ''Pets'' [] [FieldSel (pet_field [FieldSel (string_field ''name'' [])])],
           query_of ''Dogs'' [] [FieldSel (pet_field [FieldSel (string_field ''name'' [])])]],
        Fragments = []\<rparr>)]"

text \<open>
  A parser that knows the documents above and reports a syntax error at the start of any
  other text; a validator that checks the leaf rule; a variable check that wants a value
  for every variable declared non-null.
\<close>

definition parse_known :: "string \<Rightarrow> gqlerror + ast_QueryDocument" where
  "parse_known q =
     (case map_of parsed_documents q of
        Some d \<Rightarrow> Inr d
      | None \<Rightarrow> Inl \<lparr>Message = ''Unexpected input'', Locations = [(1, 1)]\<rparr>)"

definition validate_leaf_rule :: "ast_Schema \<Rightarrow> ast_QueryDocument \<Rightarrow> gqlerror list" where
  "validate_leaf_rule sch d =
     (if document_leaf_rule \<lparr>schema = sch\<rparr> d then []
      else [\<lparr>Message = ''Field must not have a selection since its type has no subfields.'',
             Locations = [(1, 1)]\<rparr>])"

definition required_variables ::
  "ast_Schema \<Rightarrow> ast_OperationDefinition \<Rightarrow> variables \<Rightarrow> gqlerror + variables" where
  "required_variables sch opdef vs =
     (case find (\<lambda>(v, ty). NonNull ty \<and> vs v = None) (VariableDefinitions opdef) of
        Some (v, ty) \<Rightarrow> Inl \<lparr>Message = ''must be defined'', Locations = [(1, 1)]\<rparr>
      | None \<Rightarrow> Inr vs)"

definition stand_ins :: collaborators where
  "stand_ins =
     \<lparr>ParseQuery = parse_known,
      Validate = validate_leaf_rule,
      VariableValues = required_variables,
      collectFields = collectFields_model 8\<rparr>"

definition request :: "string \<Rightarrow> string \<Rightarrow> Request" where
  "request q nm = \<lparr>Query = q, OperationName = nm, Variables = Map.empty\<rparr>"

definition bare_operation :: "schema \<Rightarrow> ast_QueryDocument \<Rightarrow> operation" where
  "bare_operation s d =
     \<lparr>op = query_of [] [] [], vars = Map.empty, query = [], doc = d, inSchema = s\<rparr>"

text \<open>A field \<^verbatim>\<open>dog: [Dog]\<close>: the name of a list type is the name of its element type.\<close>

text \<open>The fields the expander comes to in the example of the spec.\<close>

definition example_fields :: "ast_Field list" where
  "example_fields =
     [pet_field name_and_dog_breed, string_field ''name'' [], string_field ''breed'' []]"

definition dog_field :: "Selection list \<Rightarrow> ast_Field" where
  "dog_field ss =
     ast_Field ''dog'' ''dog'' [] [] ss
       (Some \<lparr>fdef_Name = ''dog'', fdef_Type = ast_Type [] (Some (named ''Dog'')) False\<rparr>)"

section \<open>Auxiliary facts\<close>

lemmas example_defs =
  animals_def bare_operation_def pet_field_def dog_field_def string_field_def named_def
  slice_at_def

lemmas run_defs =
  Operation_def stand_ins_def request_def parse_known_def parsed_documents_def
  validate_leaf_rule_def document_leaf_rule_def required_variables_def ForName_def
  query_of_def collectFields_model_def satisfies_def no_query_error_def
  name_required_error_def not_present_error_def name_and_dog_breed_def example_defs

lemma each_Returns_D:
  "each g xs = Returns ys \<Longrightarrow> list_all2 (\<lambda>x y. g x = Returns y) xs ys"
  by (induction xs arbitrary: ys) (auto split: outcome.splits)

lemma each_Returns_I:
  "list_all2 (\<lambda>x y. g x = Returns y) xs ys \<Longrightarrow> each g xs = Returns ys"
  by (induction xs ys rule: list_all2_induct) auto

text \<open>
  The bound on the recursion is a device of the model only: a call that comes to an end
  under one bound ends in the same way under every larger one.
\<close>

lemma each_agree:
  assumes "\<And>x. x \<in> set xs \<Longrightarrow> g x \<noteq> Unfinished \<Longrightarrow> h x = g x"
    and "each g xs \<noteq> Unfinished"
  shows "each h xs = each g xs"
  using assms
proof (induction xs)
  case Nil
  then show ?case by simp
next
  case (Cons x xs)
  show ?case
  proof (cases "g x")
    case (Returns y)
    with Cons.prems have hx: "h x = Returns y" by simp
    from Cons.prems(2) Returns have "each g xs \<noteq> Unfinished"
      by (auto split: outcome.splits)
    with Cons have "each h xs = each g xs" by simp
    with Returns hx show ?thesis by simp
  next
    case Panics
    with Cons.prems have "h x = Panics" by simp
    with Panics show ?thesis by simp
  next
    case Unfinished
    with Cons.prems(2) show ?thesis by simp
  qed
qed

lemma assign_SelectionSet_sel [simp]:
  "Alias (assign_SelectionSet f ss) = Alias f"
  "Name (assign_SelectionSet f ss) = Name f"
  "Arguments (assign_SelectionSet f ss) = Arguments f"
  "Directives (assign_SelectionSet f ss) = Directives f"
  "Definition (assign_SelectionSet f ss) = Definition f"
  "SelectionSet (assign_SelectionSet f ss) = ss"
  by (cases f; simp)+

lemma expand_more_fuel:
  "recursivelyExpandFragmentSelections n ext field opn \<noteq> Unfinished \<Longrightarrow> n \<le> m \<Longrightarrow>
   recursivelyExpandFragmentSelections m ext field opn =
   recursivelyExpandFragmentSelections n ext field opn"
proof (induction n arbitrary: m field)
  case 0
  then show ?case by simp
next
  case (Suc n)
  from Suc.prems(2) obtain m' where m: "m = Suc m'" and le: "n \<le> m'"
    by (cases m) auto
  show ?case
  proof (cases "satisfies field (inSchema opn)")
    case (Returns so)
    show ?thesis
    proof (cases so)
      case None
      with Returns m show ?thesis by simp
    next
      case (Some sat)
      let ?ctx = "\<lparr>RawQuery = query opn, ctx_Variables = vars opn, Doc = doc opn\<rparr>"
      show ?thesis
      proof (cases "collectFields ext ?ctx (SelectionSet field) sat")
        case None
        with Returns Some m show ?thesis by simp
      next
        case (Some cs)
        let ?g = "\<lambda>f. recursivelyExpandFragmentSelections n ext f opn"
        let ?h = "\<lambda>f. recursivelyExpandFragmentSelections m' ext f opn"
        from Suc.prems(1) Returns \<open>so = Some sat\<close> Some
        have nu: "each ?g (map cf_Field cs) \<noteq> Unfinished"
          by (auto split: outcome.splits)
        have "each ?h (map cf_Field cs) = each ?g (map cf_Field cs)"
        proof (rule each_agree)
          fix x assume "?g x \<noteq> Unfinished"
          then show "?h x = ?g x" by (rule Suc.IH [OF _ le])
        qed (rule nu)
        with Returns \<open>so = Some sat\<close> Some m show ?thesis by simp
      qed
    qed
  next
    case Panics
    with m show ?thesis by simp
  next
    case Unfinished
    with m show ?thesis by simp
  qed
qed

lemma expandTopLevel_more_fuel:
  "expandTopLevel n ext opn x \<noteq> Unfinished \<Longrightarrow> n \<le> m \<Longrightarrow>
   expandTopLevel m ext opn x = expandTopLevel n ext opn x"
proof (cases x)
  case (FieldSel f)
  assume a: "expandTopLevel n ext opn x \<noteq> Unfinished" and le: "n \<le> m"
  from a FieldSel have "recursivelyExpandFragmentSelections n ext f opn \<noteq> Unfinished"
    by (auto split: outcome.splits)
  from expand_more_fuel [OF this le] FieldSel show ?thesis by simp
qed simp_all
lemma Operation_more_fuel:
  assumes "Operation n ext s req \<noteq> Unfinished" and "n \<le> m"
  shows "Operation m ext s req = Operation n ext s req"
proof -
  have key: "each (expandTopLevel m ext opn) xs = each (expandTopLevel n ext opn) xs"
    if "each (expandTopLevel n ext opn) xs \<noteq> Unfinished" for opn xs
  proof (rule each_agree)
    fix x assume "expandTopLevel n ext opn x \<noteq> Unfinished"
    then show "expandTopLevel m ext opn x = expandTopLevel n ext opn x"
      by (rule expandTopLevel_more_fuel [OF _ assms(2)])
  qed (rule that)
  show ?thesis
  proof (cases req)
    case None
    then show ?thesis by (simp add: Operation_def)
  next
    case (Some r)
    note req = this
    show ?thesis
    proof (cases "ParseQuery ext (Query r)")
      case (Inl e)
      with req show ?thesis by (simp add: Operation_def)
    next
      case (Inr d)
      note parse = this
      show ?thesis
      proof (cases s)
        case None
        with req parse show ?thesis by (simp add: Operation_def)
      next
        case (Some sch)
        note s = this
        show ?thesis
        proof (cases "ForName (Operations d) (OperationName r)")
          case None
          with req parse s show ?thesis by (simp add: Operation_def)
        next
          case (Some opdef)
          note sel = this
          show ?thesis
          proof (cases "VariableValues ext (schema sch) opdef (Variables r)")
            case (Inl e)
            with req parse s sel show ?thesis by (simp add: Operation_def)
          next
            case (Inr vs)
            let ?opn = "\<lparr>op = opdef, vars = vs, query = Query r, doc = d, inSchema = sch\<rparr>"
            show ?thesis
            proof (cases "Query r = [] \<or> Validate ext (schema sch) d \<noteq> [] \<or>
                (length (Operations d) > 1 \<and> OperationName r = [])")
              case True
              with req parse s sel Inr show ?thesis by (auto simp add: Operation_def)
            next
              case False
              with assms(1) req parse s sel Inr
              have "each (expandTopLevel n ext ?opn) (op_SelectionSet opdef) \<noteq> Unfinished"
                by (auto simp add: Operation_def split: outcome.splits)
              from key [OF this] False req parse s sel Inr show ?thesis
                by (auto simp add: Operation_def)
            qed
          qed
        qed
      qed
    qed
  qed
qed
lemma same_attributes_refl [simp]: "same_attributes f f"
  by (simp add: same_attributes_def)

lemma same_attributes_assign [simp]: "same_attributes f (assign_SelectionSet f ss)"
  by (simp add: same_attributes_def)

lemma list_all2_right_mem:
  "list_all2 P xs ys \<Longrightarrow> y \<in> set ys \<Longrightarrow> \<exists>x \<in> set xs. P x y"
  by (induction rule: list_all2_induct) auto

lemma only_fields_in_iff:
  "only_fields_in f \<longleftrightarrow> list_all only_fields (SelectionSet f)"
  by (cases f) (simp add: list_all_iff)

lemma leaf_rule_in_iff:
  "leaf_rule_in s f \<longleftrightarrow>
     (satisfies f s = Returns None \<longrightarrow> SelectionSet f = []) \<and>
     (\<forall>x \<in> set (SelectionSet f). leaf_rule s x)"
  by (cases f) simp

lemma expand_only_fields:
  assumes keeps: "keeps_leaf_rule ext (inSchema opn)"
    and docrule: "document_leaf_rule (inSchema opn) (doc opn)"
  shows "leaf_rule_in (inSchema opn) field \<Longrightarrow>
         recursivelyExpandFragmentSelections n ext field opn = Returns field' \<Longrightarrow>
         only_fields_in field'"
proof (induction n arbitrary: field field')
  case 0
  then show ?case by simp
next
  case (Suc n)
  let ?ctx = "\<lparr>RawQuery = query opn, ctx_Variables = vars opn, Doc = doc opn\<rparr>"
  show ?case
  proof (cases "satisfies field (inSchema opn) = Returns None")
    case True
    with Suc.prems have "field' = field" and "SelectionSet field = []"
      by (simp_all add: leaf_rule_in_iff)
    then show ?thesis by (simp add: only_fields_in_iff)
  next
    case False
    with Suc.prems(2) obtain sat cs fs
      where sat: "satisfies field (inSchema opn) = Returns (Some sat)"
        and cs: "collectFields ext ?ctx (SelectionSet field) sat = Some cs"
        and fs: "each (\<lambda>f. recursivelyExpandFragmentSelections n ext f opn) (map cf_Field cs)
                   = Returns fs"
        and res: "field' = assign_SelectionSet field (map FieldSel fs)"
      by (auto split: outcome.splits option.splits)
    from Suc.prems(1) have sels: "\<forall>x \<in> set (SelectionSet field). leaf_rule (inSchema opn) x"
      by (simp add: leaf_rule_in_iff)
    from keeps docrule sels cs
    have collected: "\<forall>c \<in> set cs. leaf_rule_in (inSchema opn) (cf_Field c)"
      unfolding keeps_leaf_rule_def
      by (metis requestContext.select_convs(3))
    from each_Returns_D [OF fs]
    have l2: "list_all2 (\<lambda>x y. recursivelyExpandFragmentSelections n ext x opn = Returns y)
            (map cf_Field cs) fs" .
    have "\<forall>f \<in> set fs. only_fields_in f"
    proof
      fix f assume "f \<in> set fs"
      with list_all2_right_mem [OF l2] obtain c where "c \<in> set cs"
        and "recursivelyExpandFragmentSelections n ext (cf_Field c) opn = Returns f"
        by auto
      with collected Suc.IH show "only_fields_in f" by blast
    qed
    with res show ?thesis
      by (simp add: only_fields_in_iff list_all_iff)
  qed
qed

lemma ForName_mem: "ForName l name = Some od \<Longrightarrow> od \<in> set l"
  by (auto simp: ForName_def find_Some_iff split: if_splits)
lemma Operation_success:
  assumes ok: "Operation n ext s req = Returns (Inr opn)"
  obtains r :: Request and d sch opdef vs sels
    where "Validate ext (schema sch) d = []"
      and "ForName (Operations d) (OperationName r) = Some opdef"
      and "each (expandTopLevel n ext
                  \<lparr>op = opdef, vars = vs, query = Query r, doc = d, inSchema = sch\<rparr>)
                  (op_SelectionSet opdef) = Returns sels"
      and "opn = \<lparr>op = opdef\<lparr>op_SelectionSet := sels\<rparr>, vars = vs, query = Query r,
                        doc = d, inSchema = sch\<rparr>"
  proof (cases req)
    case None
    from None ok show ?thesis by (simp add: Operation_def split: if_splits)
  next
    case (Some r)
    note req = this
    from req ok have q: "Query r \<noteq> []" by (auto simp: Operation_def)
    show ?thesis
    proof (cases "ParseQuery ext (Query r)")
      case (Inl e)
      from this req q ok show ?thesis by (simp add: Operation_def split: if_splits)
    next
      case (Inr d)
      note parse = this
      show ?thesis
      proof (cases s)
        case None
        from this req q parse ok show ?thesis by (simp add: Operation_def split: if_splits)
      next
        case (Some sch)
        note s = this
        from req q parse s ok have valid: "Validate ext (schema sch) d = []"
          and na: "\<not> (length (Operations d) > 1 \<and> OperationName r = [])"
          by (auto simp: Operation_def split: if_splits)
        show ?thesis
        proof (cases "ForName (Operations d) (OperationName r)")
          case None
          from this req q parse s valid na ok show ?thesis by (simp add: Operation_def split: if_splits)
        next
          case (Some opdef)
          note sel = this
          show ?thesis
          proof (cases "VariableValues ext (schema sch) opdef (Variables r)")
            case (Inl e)
            from this req q parse s valid na sel ok show ?thesis by (simp add: Operation_def split: if_splits)
          next
            case (Inr vs)
            from req q parse s valid na sel Inr ok
            obtain sels where
              "each (expandTopLevel n ext
                  \<lparr>op = opdef, vars = vs, query = Query r, doc = d, inSchema = sch\<rparr>)
                  (op_SelectionSet opdef) = Returns sels"
              and "opn = \<lparr>op = opdef\<lparr>op_SelectionSet := sels\<rparr>, vars = vs, query = Query r,
                         doc = d, inSchema = sch\<rparr>"
              by (simp add: Operation_def split: outcome.splits if_splits)
            with valid sel show ?thesis by (rule that)
          qed
        qed
      qed
    qed
  qed
lemma getOrCreateField_keeps:
  "\<forall>c \<in> set acc. leaf_rule_in s (cf_Field c) \<Longrightarrow> leaf_rule_in s f \<Longrightarrow>
   \<forall>c \<in> set (getOrCreateField acc f). leaf_rule_in s (cf_Field c)"
  by (induction acc) auto

lemma find_Some_mem: "find P xs = Some x \<Longrightarrow> x \<in> set xs"
  by (auto simp: find_Some_iff)

lemma collectInto_keeps:
  "document_leaf_rule s d \<Longrightarrow>
   \<forall>c \<in> set acc. leaf_rule_in s (cf_Field c) \<Longrightarrow>
   \<forall>x \<in> set sels. leaf_rule s x \<Longrightarrow>
   collectInto n d sat acc sels = Some r \<Longrightarrow>
   \<forall>c \<in> set r. leaf_rule_in s (cf_Field c)"
proof (induction n d sat acc sels arbitrary: r rule: collectInto.induct)
  case (1 n d sat acc)
  then show ?case by simp
next
  case (2 n d sat acc f rest)
  from "2.prems" have "\<forall>c \<in> set (getOrCreateField acc f). leaf_rule_in s (cf_Field c)"
    by (intro getOrCreateField_keeps) auto
  with 2 show ?case by simp
next
  case (3 d sat acc nm rest)
  then show ?case by simp
next
  case (4 n d sat acc nm rest)
  note docrule = "4.prems"(1) and accrule = "4.prems"(2) and run = "4.prems"(4)
  have rest: "\<forall>x \<in> set rest. leaf_rule s x" using "4.prems"(3) by simp
  show ?case
  proof (cases "find (\<lambda>fr. fragdef_Name fr = nm) (Fragments d)")
    case None
    with run show ?thesis by simp
  next
    case (Some fr)
    note fr = this
    show ?thesis
    proof (cases "fragdef_TypeCondition fr \<in> set sat")
      case True
      with run fr obtain acc' where
        a: "collectInto n d sat acc (fragdef_SelectionSet fr) = Some acc'"
        and b: "collectInto (Suc n) d sat acc' rest = Some r"
        by (auto split: option.splits)
      from find_Some_mem [OF fr] docrule
      have "\<forall>x \<in> set (fragdef_SelectionSet fr). leaf_rule s x"
        unfolding document_leaf_rule_def by blast
      from "4.IH"(1) [OF fr True docrule accrule this a]
      have "\<forall>c \<in> set acc'. leaf_rule_in s (cf_Field c)" .
      from "4.IH"(2) [OF fr True a docrule this rest b] show ?thesis .
    next
      case False
      with run fr have "collectInto (Suc n) d sat acc rest = Some r" by simp
      from "4.IH"(3) [OF fr False docrule accrule rest this] show ?thesis .
    qed
  qed
next
  case (5 d sat acc tc ss rest)
  then show ?case by simp
next
  case (6 n d sat acc tc ss rest)
  note docrule = "6.prems"(1) and accrule = "6.prems"(2) and run = "6.prems"(4)
  have rest: "\<forall>x \<in> set rest. leaf_rule s x" using "6.prems"(3) by simp
  have ss: "\<forall>x \<in> set ss. leaf_rule s x" using "6.prems"(3) by simp
  show ?case
  proof (cases "tc \<in> set sat")
    case True
    with run obtain acc' where
      a: "collectInto n d sat acc ss = Some acc'"
      and b: "collectInto (Suc n) d sat acc' rest = Some r"
      by (auto split: option.splits)
    from "6.IH"(1) [OF True docrule accrule ss a]
    have "\<forall>c \<in> set acc'. leaf_rule_in s (cf_Field c)" .
    from "6.IH"(2) [OF True a docrule this rest b] show ?thesis .
  next
    case False
    with run have "collectInto (Suc n) d sat acc rest = Some r" by simp
    from "6.IH"(3) [OF False docrule accrule rest this] show ?thesis .
  qed
qed

lemma model_keeps_leaf_rule:
  "collectFields ext = collectFields_model n \<Longrightarrow> keeps_leaf_rule ext s"
  unfolding keeps_leaf_rule_def collectFields_model_def
  using collectInto_keeps [where acc = "[]"] by (metis empty_iff list.set(1))

lemma schema_eta: "\<lparr>schema = schema s\<rparr> = (s :: schema)"
  by (cases s) simp

lemma leaf_rule_validator_enforces:
  "Validate ext = validate_leaf_rule \<Longrightarrow> enforces_leaf_rule ext s"
  by (auto simp: enforces_leaf_rule_def validate_leaf_rule_def schema_eta split: if_splits)
lemma each_stops_at_panic:
  "g x = Panics \<Longrightarrow>
   each g (before @ x # after) =
     (case each g before of Returns ys \<Rightarrow> Panics | Panics \<Rightarrow> Panics | Unfinished \<Rightarrow> Unfinished)"
  by (induction before) (auto split: outcome.splits)

lemma satisfies_not_Unfinished: "satisfies f s \<noteq> Unfinished"
  by (simp add: satisfies_def split: option.splits DefinitionKind.splits)

lemma each_all_return:
  "\<forall>x \<in> set xs. \<exists>y. g x = Returns y \<and> Q x y \<Longrightarrow>
   \<exists>ys. each g xs = Returns ys \<and> list_all2 Q xs ys"
proof (induction xs)
  case Nil
  then show ?case by simp
next
  case (Cons x xs)
  then obtain y ys where "g x = Returns y" "Q x y" "each g xs = Returns ys" "list_all2 Q xs ys"
    by auto
  then show ?case by auto
qed

text \<open>Under the contract the expander returns, for every bound above the rank.\<close>

lemma expand_returns:
  assumes contract: "expansion_contract ext opn known rank"
  shows "known f \<Longrightarrow> rank f < n \<Longrightarrow>
         \<exists>f'. recursivelyExpandFragmentSelections n ext f opn = Returns f' \<and>
              only_fields_in f' \<and> same_attributes f f'"
proof (induction n arbitrary: f)
  case 0
  then show ?case by simp
next
  case (Suc n)
  let ?ctx = "\<lparr>RawQuery = query opn, ctx_Variables = vars opn, Doc = doc opn\<rparr>"
  from contract Suc.prems(1)
  have np: "satisfies f (inSchema opn) \<noteq> Panics"
    and leaf: "satisfies f (inSchema opn) = Returns None \<Longrightarrow> SelectionSet f = []"
    and coll: "\<And>sat. satisfies f (inSchema opn) = Returns (Some sat) \<Longrightarrow>
           \<exists>cs. collectFields ext ?ctx (SelectionSet f) sat = Some cs \<and>
                 (\<forall>c \<in> set cs. known (cf_Field c) \<and> rank (cf_Field c) < rank f)"
    unfolding expansion_contract_def by blast+
  show ?case
  proof (cases "satisfies f (inSchema opn)")
    case (Returns so)
    show ?thesis
    proof (cases so)
      case None
      with Returns leaf have "SelectionSet f = []" by simp
      then have "only_fields_in f" by (simp add: only_fields_in_iff)
      with Returns None show ?thesis by simp
    next
      case (Some sat)
      with Returns coll obtain cs where
        cs: "collectFields ext ?ctx (SelectionSet f) sat = Some cs"
        and small: "\<forall>c \<in> set cs. known (cf_Field c) \<and> rank (cf_Field c) < rank f"
        by blast
      have "\<forall>g \<in> set (map cf_Field cs).
              \<exists>g'. recursivelyExpandFragmentSelections n ext g opn = Returns g' \<and>
                   (only_fields_in g' \<and> same_attributes g g')"
      proof
        fix g assume "g \<in> set (map cf_Field cs)"
        with small have "known g" and "rank g < rank f" by auto
        with Suc.prems(2) have "rank g < n" by simp
        from Suc.IH [OF \<open>known g\<close> this] show
          "\<exists>g'. recursivelyExpandFragmentSelections n ext g opn = Returns g' \<and>
                   (only_fields_in g' \<and> same_attributes g g')" .
      qed
      from each_all_return [OF this] obtain fs where
        fs: "each (\<lambda>g. recursivelyExpandFragmentSelections n ext g opn) (map cf_Field cs) = Returns fs"
        and all: "list_all2 (\<lambda>g g'. only_fields_in g' \<and> same_attributes g g') (map cf_Field cs) fs"
        by blast
      from all have "\<forall>g' \<in> set fs. only_fields_in g'"
        by (auto dest: list_all2_right_mem)
      then have "only_fields_in (assign_SelectionSet f (map FieldSel fs))"
        by (simp add: only_fields_in_iff list_all_iff)
      with Returns Some cs fs show ?thesis by simp
    qed
  next
    case Panics
    with np show ?thesis by simp
  next
    case Unfinished
    then show ?thesis by (simp add: satisfies_not_Unfinished)
  qed
qed

lemma Operation_returns:
  assumes "Query r \<noteq> []"
    and "ParseQuery ext (Query r) = Inr d"
    and "Validate ext (schema sch) d = []"
    and "\<not> (length (Operations d) > 1 \<and> OperationName r = [])"
    and "ForName (Operations d) (OperationName r) = Some od"
    and "VariableValues ext (schema sch) od (Variables r) = Inr vs"
    and contract: "expansion_contract ext
          \<lparr>op = od, vars = vs, query = Query r, doc = d, inSchema = sch\<rparr> known rank"
    and top: "\<forall>x \<in> set (op_SelectionSet od). \<exists>f. x = FieldSel f \<and> known f \<and> rank f < n"
  shows "\<exists>sels. Operation n ext (Some sch) (Some r) =
                  Returns (Inr \<lparr>op = od\<lparr>op_SelectionSet := sels\<rparr>, vars = vs,
                               query = Query r, doc = d, inSchema = sch\<rparr>) \<and>
                list_all only_fields sels \<and>
                list_all2 same_top_level (op_SelectionSet od) sels"
proof -
  let ?opn = "\<lparr>op = od, vars = vs, query = Query r, doc = d, inSchema = sch\<rparr>"
  have "\<forall>x \<in> set (op_SelectionSet od).
          \<exists>y. expandTopLevel n ext ?opn x = Returns y \<and> (only_fields y \<and> same_top_level x y)"
  proof
    fix x assume "x \<in> set (op_SelectionSet od)"
    with top obtain f where x: "x = FieldSel f" and "known f" and "rank f < n" by blast
    from expand_returns [OF contract this(2,3)] obtain f' where
      "recursivelyExpandFragmentSelections n ext f ?opn = Returns f'"
      "only_fields_in f'" "same_attributes f f'" by blast
    with x show "\<exists>y. expandTopLevel n ext ?opn x = Returns y \<and>
                     (only_fields y \<and> same_top_level x y)"
      by (simp add: same_top_level_def)
  qed
  from each_all_return [OF this] obtain sels where
    run: "each (expandTopLevel n ext ?opn) (op_SelectionSet od) = Returns sels"
    and all: "list_all2 (\<lambda>x y. only_fields y \<and> same_top_level x y) (op_SelectionSet od) sels"
    by blast
  from all have "list_all only_fields sels"
    by (auto simp: list_all_iff dest: list_all2_right_mem)
  moreover from all have "list_all2 same_top_level (op_SelectionSet od) sels"
    by (rule list_all2_mono) simp
  moreover from assms(1-6) run
  have "Operation n ext (Some sch) (Some r) =
          Returns (Inr \<lparr>op = od\<lparr>op_SelectionSet := sels\<rparr>, vars = vs,
                       query = Query r, doc = d, inSchema = sch\<rparr>)"
    by (simp add: Operation_def)
  ultimately show ?thesis by blast
qed

lemma example_contract:
  "expansion_contract stand_ins
     \<lparr>op = od, vars = vs, query = q,
      doc = \<lparr>Operations = ops, Fragments = []\<rparr>, inSchema = animals\<rparr>
     (\<lambda>f. f \<in> set example_fields) (\<lambda>f. length (SelectionSet f))"
  by (simp add: expansion_contract_def example_fields_def collectFields_model_def
      stand_ins_def satisfies_def name_and_dog_breed_def example_defs eval_nat_numeral
      all_conj_distrib)

section \<open>The expander\<close>

subsection \<open>The types a fragment may be conditioned on\<close>

text \<open>
  Claim C1. For a field whose declared type is known to the schema, the list of type
  names is decided by the kind of that type: for an interface or a union, the declared type
  name followed by the names of its possible types; for an object, the declared type name
  followed by the names the \<^verbatim>\<open>Implements\<close> table gives for it. The expander hands exactly
  this list to \<^verbatim>\<open>collectFields\<close>, with the field's selection set, and puts the expansions
  of the fields collected for it in the place of the selection set. For any other kind
  the expander returns the field as it is.
\<close>

theorem satisfies_from_kind:
  assumes "Definition field = Some fd"
    and "type_Name (fdef_Type fd) = Some typeName"
    and "Types (schema (inSchema opn)) typeName = Some td"
  shows "(Kind td = Interface \<or> Kind td = UnionKind \<longrightarrow>
            satisfies field (inSchema opn) =
              Returns (Some (typeName #
                map def_Name (slice_at (PossibleTypes (schema (inSchema opn))) typeName))) \<and>
            recursivelyExpandFragmentSelections (Suc n) ext field opn =
              (case collectFields ext
                      \<lparr>RawQuery = query opn, ctx_Variables = vars opn, Doc = doc opn\<rparr>
                      (SelectionSet field)
                      (typeName #
                         map def_Name (slice_at (PossibleTypes (schema (inSchema opn))) typeName)) of
                 None \<Rightarrow> Panics
               | Some cs \<Rightarrow>
                   (case each (\<lambda>f. recursivelyExpandFragmentSelections n ext f opn)
                           (map cf_Field cs) of
                      Returns fs \<Rightarrow> Returns (assign_SelectionSet field (map FieldSel fs))
                    | Panics \<Rightarrow> Panics
                    | Unfinished \<Rightarrow> Unfinished))) \<and>
         (Kind td = Object \<longrightarrow>
            satisfies field (inSchema opn) =
              Returns (Some (typeName #
                map def_Name (slice_at (Implements (schema (inSchema opn))) typeName))) \<and>
            recursivelyExpandFragmentSelections (Suc n) ext field opn =
              (case collectFields ext
                      \<lparr>RawQuery = query opn, ctx_Variables = vars opn, Doc = doc opn\<rparr>
                      (SelectionSet field)
                      (typeName #
                         map def_Name (slice_at (Implements (schema (inSchema opn))) typeName)) of
                 None \<Rightarrow> Panics
               | Some cs \<Rightarrow>
                   (case each (\<lambda>f. recursivelyExpandFragmentSelections n ext f opn)
                           (map cf_Field cs) of
                      Returns fs \<Rightarrow> Returns (assign_SelectionSet field (map FieldSel fs))
                    | Panics \<Rightarrow> Panics
                    | Unfinished \<Rightarrow> Unfinished))) \<and>
         (Kind td \<noteq> Interface \<and> Kind td \<noteq> UnionKind \<and> Kind td \<noteq> Object \<longrightarrow>
            satisfies field (inSchema opn) = Returns None \<and>
            recursivelyExpandFragmentSelections (Suc n) ext field opn = Returns field)"
  using assms by (cases "Kind td") (simp_all add: satisfies_def)

theorem satisfies_from_kind_witness:
  "recursivelyExpandFragmentSelections (Suc (Suc 0)) stand_ins (pet_field name_and_dog_breed)
     (bare_operation animals \<lparr>Operations = [], Fragments = []\<rparr>) =
     Returns (pet_field [FieldSel (string_field ''name'' []),
                         FieldSel (string_field ''breed'' [])]) \<and>
   satisfies (pet_field name_and_dog_breed) animals = Returns (Some [''Animal'', ''Dog'']) \<and>
   recursivelyExpandFragmentSelections (Suc (Suc 0)) stand_ins
     (dog_field [InlineFragment ''Animal'' [FieldSel (string_field ''name'' [])],
                 InlineFragment ''Query'' [FieldSel (pet_field [])]])
     (bare_operation animals \<lparr>Operations = [], Fragments = []\<rparr>) =
     Returns (dog_field [FieldSel (string_field ''name'' [])]) \<and>
   satisfies (dog_field []) animals = Returns (Some [''Dog'', ''Animal'']) \<and>
   recursivelyExpandFragmentSelections (Suc 0) stand_ins (string_field ''name'' [])
     (bare_operation animals \<lparr>Operations = [], Fragments = []\<rparr>) =
   Returns (string_field ''name'' [])"
proof -
  let ?opn = "bare_operation animals \<lparr>Operations = [], Fragments = []\<rparr>"
  let ?dog = "dog_field [InlineFragment ''Animal'' [FieldSel (string_field ''name'' [])],
                 InlineFragment ''Query'' [FieldSel (pet_field [])]]"
  note a = satisfies_from_kind [of "pet_field name_and_dog_breed"
        "\<lparr>fdef_Name = ''pet'', fdef_Type = named ''Animal''\<rparr>" "''Animal''" ?opn
        "\<lparr>Kind = Interface, def_Name = ''Animal''\<rparr>" "Suc 0" stand_ins]
  have a1: "recursivelyExpandFragmentSelections (Suc (Suc 0)) stand_ins
              (pet_field name_and_dog_breed) ?opn =
            Returns (pet_field [FieldSel (string_field ''name'' []),
                                FieldSel (string_field ''breed'' [])])"
    using a by (simp add: run_defs eval_nat_numeral)
  have a2: "satisfies (pet_field name_and_dog_breed) (inSchema ?opn) =
             Returns (Some [''Animal'', ''Dog''])"
    using a by (simp add: example_defs)
  note b = satisfies_from_kind [of ?dog
        "\<lparr>fdef_Name = ''dog'', fdef_Type = ast_Type [] (Some (named ''Dog'')) False\<rparr>"
        "''Dog''" ?opn "\<lparr>Kind = Object, def_Name = ''Dog''\<rparr>" "Suc 0" stand_ins]
  have b1: "recursivelyExpandFragmentSelections (Suc (Suc 0)) stand_ins ?dog ?opn =
            Returns (dog_field [FieldSel (string_field ''name'' [])])"
    using b by (simp add: run_defs eval_nat_numeral)
  have b2: "satisfies (dog_field []) (inSchema ?opn) = Returns (Some [''Dog'', ''Animal''])"
    using satisfies_from_kind [of "dog_field []"
        "\<lparr>fdef_Name = ''dog'', fdef_Type = ast_Type [] (Some (named ''Dog'')) False\<rparr>"
        "''Dog''" ?opn "\<lparr>Kind = Object, def_Name = ''Dog''\<rparr>" 0 stand_ins]
    by (simp add: example_defs)
  have c: "recursivelyExpandFragmentSelections (Suc 0) stand_ins (string_field ''name'' []) ?opn
             = Returns (string_field ''name'' [])"
    using satisfies_from_kind [of "string_field ''name'' []"
        "\<lparr>fdef_Name = ''name'', fdef_Type = named ''String''\<rparr>" "''String''" ?opn
        "\<lparr>Kind = Scalar, def_Name = ''String''\<rparr>" 0 stand_ins]
    by (simp add: example_defs)
  from a1 a2 b1 b2 c show ?thesis by (simp add: bare_operation_def)
qed

section \<open>Operation\<close>

subsection \<open>No request, or no query text\<close>

text \<open>
  Claim C8. A request with empty query text, and an absent request, fail with the input
  error \<^verbatim>\<open>no query string supplied in request\<close>; no operation is returned. This holds
  for every schema, every parser and every validator, since line 40 runs before them.
\<close>

theorem empty_query_input_error:
  assumes "req = None \<or> (\<exists>r. req = Some r \<and> Query r = [])"
  shows "Operation n ext s req = Returns (Inl (Fundamental ''no query string supplied in request''))"
  using assms by (auto simp: Operation_def no_query_error_def)

theorem empty_query_input_error_witness:
  "Operation 3 stand_ins (Some animals) None =
     Returns (Inl (Fundamental ''no query string supplied in request'')) \<and>
   Operation 3 stand_ins (Some animals) (Some (request [] ''Pets'')) =
     Returns (Inl (Fundamental ''no query string supplied in request''))"
  using empty_query_input_error [of None 3 stand_ins "Some animals"]
    empty_query_input_error [of "Some (request [] ''Pets'')" 3 stand_ins "Some animals"]
  by (simp add: request_def)

subsection \<open>A missing schema\<close>

text \<open>
  Claim C4 says that a nil schema fails with the input error, before any parsing. The
  code has no such check: line 40 tests the request only. With a nil schema and a
  query that parses, line 49 dereferences the nil receiver.
\<close>

theorem missing_schema_counterexample:
  "Operation 3 stand_ins None (Some (request ''query Pets { pet { name } }'' [])) = Panics"
  by (simp add: run_defs)

text \<open>
  Claim C4 as amended. With a nil schema, a missing request or empty query text still
  fails with the input error, a single message without locations, before any parsing.
  A non-empty query is parsed first: a syntax error is returned as it is, and a query
  that parses ends in the nil dereference, never in the input error.
\<close>

theorem missing_schema_not_checked:
  "Operation n ext None None = Returns (Inl no_query_error) \<and>
   (Query r = [] \<longrightarrow> Operation n ext None (Some r) = Returns (Inl no_query_error)) \<and>
   (Query r \<noteq> [] \<longrightarrow>
      Operation n ext None (Some r) =
        (case ParseQuery ext (Query r) of
           Inl gqlErr \<Rightarrow> Returns (Inl (GqlError gqlErr))
         | Inr d \<Rightarrow> Panics))"
  by (simp add: Operation_def split: sum.splits)

theorem missing_schema_not_checked_witness:
  "Operation 3 stand_ins None None = Returns (Inl no_query_error) \<and>
   Operation 3 stand_ins None (Some (request [] [])) = Returns (Inl no_query_error) \<and>
   Operation 3 stand_ins None (Some (request ''{ pet'' [])) =
     Returns (Inl (GqlError \<lparr>Message = ''Unexpected input'', Locations = [(1, 1)]\<rparr>))"
  using missing_schema_not_checked [of 3 stand_ins "request [] []"]
    missing_schema_not_checked [of 3 stand_ins "request ''{ pet'' []"]
  by (simp add: request_def stand_ins_def parse_known_def parsed_documents_def)

subsection \<open>The order of the checks\<close>

text \<open>
  Claim C3 says that for every request and schema the call either returns an operation or
  fails with an error. With a nil schema (which the spec counts among the empty inputs) and
  a query that parses it does neither: the receiver is dereferenced at line 49. It does
  neither, too, for a valid query whose operation has a fragment at the top level, where
  the type assertion of line 79 fails (claim C5).
\<close>

theorem precedence_counterexample:
  "Operation 3 stand_ins None
     (Some (request ''{ pet { name ... on Dog { breed } } }'' [])) = Panics \<and>
   Operation 3 stand_ins (Some animals)
     (Some (request ''{ ...PetName } fragment PetName on Query { pet { name } }'' [])) = Panics"
  by (simp add: run_defs)

text \<open>
  Claim C3 as amended. For a schema that is present, the call fails with the first error
  that applies, in this order: no request or empty query text; a syntax error of the
  parser; a non-empty list of the validator, returned whole; more than one operation and
  no operation name; no operation for the name; an error of the variable check. When
  none applies no error is returned. When none applies and every top-level selection of
  the selected operation is a field, the call returns one operation: the selected one with
  the coerced variables, the query text and the schema, its top-level fields in their
  order with their attributes, and no fragment anywhere below them. The last part needs of
  the document what validation gives (\<open>expansion_contract\<close>), and a bound on the recursion
  above the rank of the top-level fields.
\<close>

theorem Operation_precedence:
  "Operation n ext (Some sch) None = Returns (Inl no_query_error) \<and>
   (Query r = [] \<longrightarrow>
      Operation n ext (Some sch) (Some r) = Returns (Inl no_query_error)) \<and>
   (Query r \<noteq> [] \<and> ParseQuery ext (Query r) = Inl parseErr \<longrightarrow>
      Operation n ext (Some sch) (Some r) = Returns (Inl (GqlError parseErr))) \<and>
   (Query r \<noteq> [] \<and> ParseQuery ext (Query r) = Inr d \<and>
    Validate ext (schema sch) d \<noteq> [] \<longrightarrow>
      Operation n ext (Some sch) (Some r) =
        Returns (Inl (GqlList (Validate ext (schema sch) d)))) \<and>
   (Query r \<noteq> [] \<and> ParseQuery ext (Query r) = Inr d \<and>
    Validate ext (schema sch) d = [] \<and>
    length (Operations d) > 1 \<and> OperationName r = [] \<longrightarrow>
      Operation n ext (Some sch) (Some r) = Returns (Inl name_required_error)) \<and>
   (Query r \<noteq> [] \<and> ParseQuery ext (Query r) = Inr d \<and>
    Validate ext (schema sch) d = [] \<and>
    \<not> (length (Operations d) > 1 \<and> OperationName r = []) \<and>
    ForName (Operations d) (OperationName r) = None \<longrightarrow>
      Operation n ext (Some sch) (Some r) =
        Returns (Inl (not_present_error (OperationName r)))) \<and>
   (Query r \<noteq> [] \<and> ParseQuery ext (Query r) = Inr d \<and>
    Validate ext (schema sch) d = [] \<and>
    \<not> (length (Operations d) > 1 \<and> OperationName r = []) \<and>
    ForName (Operations d) (OperationName r) = Some od \<and>
    VariableValues ext (schema sch) od (Variables r) = Inl varErr \<longrightarrow>
      Operation n ext (Some sch) (Some r) = Returns (Inl (GqlError varErr))) \<and>
   (Query r \<noteq> [] \<and> ParseQuery ext (Query r) = Inr d \<and>
    Validate ext (schema sch) d = [] \<and>
    \<not> (length (Operations d) > 1 \<and> OperationName r = []) \<and>
    ForName (Operations d) (OperationName r) = Some od \<and>
    VariableValues ext (schema sch) od (Variables r) = Inr vs \<longrightarrow>
      Operation n ext (Some sch) (Some r) \<noteq> Returns (Inl e)) \<and>
   (Query r \<noteq> [] \<and> ParseQuery ext (Query r) = Inr d \<and>
    Validate ext (schema sch) d = [] \<and>
    \<not> (length (Operations d) > 1 \<and> OperationName r = []) \<and>
    ForName (Operations d) (OperationName r) = Some od \<and>
    VariableValues ext (schema sch) od (Variables r) = Inr vs \<and>
    expansion_contract ext
      \<lparr>op = od, vars = vs, query = Query r, doc = d, inSchema = sch\<rparr> known rank \<and>
    (\<forall>x \<in> set (op_SelectionSet od). \<exists>f. x = FieldSel f \<and> known f \<and> rank f < n) \<longrightarrow>
      (\<exists>opn. Operation n ext (Some sch) (Some r) = Returns (Inr opn) \<and>
             op opn = od\<lparr>op_SelectionSet := op_SelectionSet (op opn)\<rparr> \<and>
             vars opn = vs \<and> query opn = Query r \<and> inSchema opn = sch \<and>
             list_all only_fields (op_SelectionSet (op opn)) \<and>
             list_all2 same_top_level (op_SelectionSet od) (op_SelectionSet (op opn))))"
proof -
  have errors: "Operation n ext (Some sch) None = Returns (Inl no_query_error) \<and>
   (Query r = [] \<longrightarrow>
      Operation n ext (Some sch) (Some r) = Returns (Inl no_query_error)) \<and>
   (Query r \<noteq> [] \<and> ParseQuery ext (Query r) = Inl parseErr \<longrightarrow>
      Operation n ext (Some sch) (Some r) = Returns (Inl (GqlError parseErr))) \<and>
   (Query r \<noteq> [] \<and> ParseQuery ext (Query r) = Inr d \<and>
    Validate ext (schema sch) d \<noteq> [] \<longrightarrow>
      Operation n ext (Some sch) (Some r) =
        Returns (Inl (GqlList (Validate ext (schema sch) d)))) \<and>
   (Query r \<noteq> [] \<and> ParseQuery ext (Query r) = Inr d \<and>
    Validate ext (schema sch) d = [] \<and>
    length (Operations d) > 1 \<and> OperationName r = [] \<longrightarrow>
      Operation n ext (Some sch) (Some r) = Returns (Inl name_required_error)) \<and>
   (Query r \<noteq> [] \<and> ParseQuery ext (Query r) = Inr d \<and>
    Validate ext (schema sch) d = [] \<and>
    \<not> (length (Operations d) > 1 \<and> OperationName r = []) \<and>
    ForName (Operations d) (OperationName r) = None \<longrightarrow>
      Operation n ext (Some sch) (Some r) =
        Returns (Inl (not_present_error (OperationName r)))) \<and>
   (Query r \<noteq> [] \<and> ParseQuery ext (Query r) = Inr d \<and>
    Validate ext (schema sch) d = [] \<and>
    \<not> (length (Operations d) > 1 \<and> OperationName r = []) \<and>
    ForName (Operations d) (OperationName r) = Some od \<and>
    VariableValues ext (schema sch) od (Variables r) = Inl varErr \<longrightarrow>
      Operation n ext (Some sch) (Some r) = Returns (Inl (GqlError varErr))) \<and>
   (Query r \<noteq> [] \<and> ParseQuery ext (Query r) = Inr d \<and>
    Validate ext (schema sch) d = [] \<and>
    \<not> (length (Operations d) > 1 \<and> OperationName r = []) \<and>
    ForName (Operations d) (OperationName r) = Some od \<and>
    VariableValues ext (schema sch) od (Variables r) = Inr vs \<longrightarrow>
      Operation n ext (Some sch) (Some r) \<noteq> Returns (Inl e))"
    by (simp add: Operation_def split: outcome.splits)
  have success: "\<exists>opn. Operation n ext (Some sch) (Some r) = Returns (Inr opn) \<and>
             op opn = od\<lparr>op_SelectionSet := op_SelectionSet (op opn)\<rparr> \<and>
             vars opn = vs \<and> query opn = Query r \<and> inSchema opn = sch \<and>
             list_all only_fields (op_SelectionSet (op opn)) \<and>
             list_all2 same_top_level (op_SelectionSet od) (op_SelectionSet (op opn))"
    if "Query r \<noteq> []" "ParseQuery ext (Query r) = Inr d"
      "Validate ext (schema sch) d = []"
      "\<not> (length (Operations d) > 1 \<and> OperationName r = [])"
      "ForName (Operations d) (OperationName r) = Some od"
      "VariableValues ext (schema sch) od (Variables r) = Inr vs"
      "expansion_contract ext
         \<lparr>op = od, vars = vs, query = Query r, doc = d, inSchema = sch\<rparr> known rank"
      "\<forall>x \<in> set (op_SelectionSet od). \<exists>f. x = FieldSel f \<and> known f \<and> rank f < n"
  proof -
    from Operation_returns [OF that] obtain sels where
      "Operation n ext (Some sch) (Some r) =
         Returns (Inr \<lparr>op = od\<lparr>op_SelectionSet := sels\<rparr>, vars = vs,
                      query = Query r, doc = d, inSchema = sch\<rparr>)"
      "list_all only_fields sels" "list_all2 same_top_level (op_SelectionSet od) sels"
      by blast
    then show ?thesis by simp
  qed
  from errors success show ?thesis by blast
qed

theorem Operation_precedence_witness:
  "Operation 3 stand_ins (Some animals) (Some (request ''{ pet'' ''Dogs'')) =
     Returns (Inl (GqlError \<lparr>Message = ''Unexpected input'', Locations = [(1, 1)]\<rparr>)) \<and>
   Operation 3 stand_ins (Some animals)
       (Some (request ''query Pets { pet { name { first } } }'' ''Dogs'')) =
     Returns (Inl (GqlList
       [\<lparr>Message = ''Field must not have a selection since its type has no subfields.'',
         Locations = [(1, 1)]\<rparr>])) \<and>
   Operation 3 stand_ins (Some animals)
       (Some (request ''query Pets { pet { name } } query Dogs { pet { name } }'' [])) =
     Returns (Inl (Fundamental
       ''Operation name must by supplied when query has more than 1 operation.'')) \<and>
   Operation 3 stand_ins (Some animals)
       (Some (request ''query Pets { pet { name } } query Dogs { pet { name } }'' ''Cats'')) =
     Returns (Inl (Fundamental ''Supplied operation name Cats isn't present in the request.'')) \<and>
   Operation 3 stand_ins (Some animals)
       (Some (request ''query Pets($all: Boolean!) { pet @include(if: $all) { name } }'' ''Pets'')) =
     Returns (Inl (GqlError \<lparr>Message = ''must be defined'', Locations = [(1, 1)]\<rparr>)) \<and>
   (\<exists>opn. Operation 3 stand_ins (Some animals)
             (Some (request ''{ pet { name ... on Dog { breed } } }'' [])) = Returns (Inr opn) \<and>
          op_SelectionSet (op opn) =
            [FieldSel (pet_field [FieldSel (string_field ''name'' []),
                                  FieldSel (string_field ''breed'' [])])] \<and>
          list_all only_fields (op_SelectionSet (op opn)))"
proof -
  note p = Operation_precedence [where n = 3 and ext = stand_ins and sch = animals]
  note h_defs = stand_ins_def request_def parse_known_def parsed_documents_def
    validate_leaf_rule_def document_leaf_rule_def required_variables_def ForName_def
    query_of_def satisfies_def example_defs
  let ?two = "''query Pets { pet { name } } query Dogs { pet { name } }''"
  let ?var = "''query Pets($all: Boolean!) { pet @include(if: $all) { name } }''"
  let ?bad = "''query Pets { pet { name { first } } }''"
  let ?q = "''{ pet { name ... on Dog { breed } } }''"
  let ?od = "query_of [] [] [FieldSel (pet_field name_and_dog_breed)]"
  let ?odv = "query_of ''Pets'' [(''all'', ast_Type ''Boolean'' None True)]
                [FieldSel (ast_Field ''pet'' ''pet'' [] [''include'']
                   [FieldSel (string_field ''name'' [])]
                   (Some \<lparr>fdef_Name = ''pet'', fdef_Type = named ''Animal''\<rparr>))]"
  have h1: "Query (request ''{ pet'' ''Dogs'') \<noteq> [] \<and>
      ParseQuery stand_ins (Query (request ''{ pet'' ''Dogs'')) =
        Inl \<lparr>Message = ''Unexpected input'', Locations = [(1, 1)]\<rparr>"
    by (simp add: h_defs)
  have parse: "Operation 3 stand_ins (Some animals) (Some (request ''{ pet'' ''Dogs'')) =
     Returns (Inl (GqlError \<lparr>Message = ''Unexpected input'', Locations = [(1, 1)]\<rparr>))"
    using p [where r = "request ''{ pet'' ''Dogs''"
        and parseErr = "\<lparr>Message = ''Unexpected input'', Locations = [(1, 1)]\<rparr>"] h1
    by blast
  have h2: "Query (request ?bad ''Dogs'') \<noteq> [] \<and>
      ParseQuery stand_ins (Query (request ?bad ''Dogs'')) = Inr (projr (parse_known ?bad)) \<and>
      Validate stand_ins (schema animals) (projr (parse_known ?bad)) =
        [\<lparr>Message = ''Field must not have a selection since its type has no subfields.'',
          Locations = [(1, 1)]\<rparr>]"
    by (simp add: h_defs)
  have invalid: "Operation 3 stand_ins (Some animals) (Some (request ?bad ''Dogs'')) =
     Returns (Inl (GqlList
       [\<lparr>Message = ''Field must not have a selection since its type has no subfields.'',
         Locations = [(1, 1)]\<rparr>]))"
    using p [where r = "request ?bad ''Dogs''" and d = "projr (parse_known ?bad)"] h2
    by simp
  have h3: "Query (request ?two []) \<noteq> [] \<and>
      ParseQuery stand_ins (Query (request ?two [])) = Inr (projr (parse_known ?two)) \<and>
      Validate stand_ins (schema animals) (projr (parse_known ?two)) = [] \<and>
      length (Operations (projr (parse_known ?two))) > 1 \<and> OperationName (request ?two []) = []"
    by (simp add: h_defs)
  have ambiguous: "Operation 3 stand_ins (Some animals) (Some (request ?two [])) =
     Returns (Inl name_required_error)"
    using p [where r = "request ?two []" and d = "projr (parse_known ?two)"] h3
    by blast
  have h4: "Query (request ?two ''Cats'') \<noteq> [] \<and>
      ParseQuery stand_ins (Query (request ?two ''Cats'')) = Inr (projr (parse_known ?two)) \<and>
      Validate stand_ins (schema animals) (projr (parse_known ?two)) = [] \<and>
      \<not> (length (Operations (projr (parse_known ?two))) > 1 \<and>
          OperationName (request ?two ''Cats'') = []) \<and>
      ForName (Operations (projr (parse_known ?two))) (OperationName (request ?two ''Cats'')) = None"
    by (simp add: h_defs)
  have unknown: "Operation 3 stand_ins (Some animals) (Some (request ?two ''Cats'')) =
     Returns (Inl (not_present_error (OperationName (request ?two ''Cats''))))"
    using p [where r = "request ?two ''Cats''" and d = "projr (parse_known ?two)"] h4
    by blast
  have h5: "Query (request ?var ''Pets'') \<noteq> [] \<and>
      ParseQuery stand_ins (Query (request ?var ''Pets'')) = Inr (projr (parse_known ?var)) \<and>
      Validate stand_ins (schema animals) (projr (parse_known ?var)) = [] \<and>
      \<not> (length (Operations (projr (parse_known ?var))) > 1 \<and>
          OperationName (request ?var ''Pets'') = []) \<and>
      ForName (Operations (projr (parse_known ?var))) (OperationName (request ?var ''Pets'')) =
        Some ?odv \<and>
      VariableValues stand_ins (schema animals) ?odv (Variables (request ?var ''Pets'')) =
        Inl \<lparr>Message = ''must be defined'', Locations = [(1, 1)]\<rparr>"
    by (simp add: h_defs)
  have variable: "Operation 3 stand_ins (Some animals) (Some (request ?var ''Pets'')) =
     Returns (Inl (GqlError \<lparr>Message = ''must be defined'', Locations = [(1, 1)]\<rparr>))"
    using p [where r = "request ?var ''Pets''" and d = "projr (parse_known ?var)"
        and od = ?odv
        and varErr = "\<lparr>Message = ''must be defined'', Locations = [(1, 1)]\<rparr>"] h5
    by blast
  have h6: "Query (request ?q []) \<noteq> [] \<and>
      ParseQuery stand_ins (Query (request ?q [])) =
        Inr \<lparr>Operations = [?od], Fragments = []\<rparr> \<and>
      Validate stand_ins (schema animals) \<lparr>Operations = [?od], Fragments = []\<rparr> = [] \<and>
      \<not> (length (Operations \<lparr>Operations = [?od], Fragments = []\<rparr>) > 1 \<and>
          OperationName (request ?q []) = []) \<and>
      ForName (Operations \<lparr>Operations = [?od], Fragments = []\<rparr>)
        (OperationName (request ?q [])) = Some ?od \<and>
      VariableValues stand_ins (schema animals) ?od (Variables (request ?q [])) = Inr Map.empty \<and>
      (\<forall>x \<in> set (op_SelectionSet ?od).
         \<exists>f. x = FieldSel f \<and> f \<in> set example_fields \<and> length (SelectionSet f) < 3)"
    by (simp add: h_defs example_fields_def name_and_dog_breed_def)
  have "\<exists>opn. Operation 3 stand_ins (Some animals) (Some (request ?q [])) = Returns (Inr opn) \<and>
          op opn = ?od\<lparr>op_SelectionSet := op_SelectionSet (op opn)\<rparr> \<and>
          vars opn = Map.empty \<and> query opn = Query (request ?q []) \<and> inSchema opn = animals \<and>
          list_all only_fields (op_SelectionSet (op opn)) \<and>
          list_all2 same_top_level (op_SelectionSet ?od) (op_SelectionSet (op opn))"
    using p [where r = "request ?q []"
        and d = "\<lparr>Operations = [?od], Fragments = []\<rparr>" and od = ?od and vs = Map.empty
        and known = "\<lambda>f. f \<in> set example_fields"
        and rank = "\<lambda>f. length (SelectionSet f)"]
      example_contract [where od = ?od and vs = Map.empty and q = "Query (request ?q [])"
        and ops = "[?od]"] h6
    by blast
  then obtain opn where
    run: "Operation 3 stand_ins (Some animals) (Some (request ?q [])) = Returns (Inr opn)"
    and only: "list_all only_fields (op_SelectionSet (op opn))"
    by blast
  have "Operation 3 stand_ins (Some animals) (Some (request ?q [])) =
          Returns (Inr \<lparr>op = query_of [] []
               [FieldSel (pet_field [FieldSel (string_field ''name'' []),
                                     FieldSel (string_field ''breed'' [])])],
        vars = Map.empty, query = ?q,
        doc = \<lparr>Operations = [?od], Fragments = []\<rparr>, inSchema = animals\<rparr>)"
    by (simp add: run_defs eval_nat_numeral)
  with run have "op_SelectionSet (op opn) =
            [FieldSel (pet_field [FieldSel (string_field ''name'' []),
                                  FieldSel (string_field ''breed'' [])])]"
    by (auto simp: query_of_def)
  with run only parse invalid ambiguous unknown variable show ?thesis
    by (auto simp: name_required_error_def not_present_error_def request_def)
qed

subsection \<open>Selecting the operation\<close>

text \<open>
  Claim C6 says that a request whose document has exactly one operation and whose
  operation name is empty resolves successfully. Two requests with one operation and no
  name fail. In the first the operation declares a non-null variable, uses it, and the
  request supplies no value: the variable check fails. In the second the document does
  not pass validation.
\<close>

theorem sole_operation_counterexample:
  "length (Operations (projr (parse_known
      ''query Pets($all: Boolean!) { pet @include(if: $all) { name } }''))) = 1 \<and>
   Operation 3 stand_ins (Some animals)
       (Some (request ''query Pets($all: Boolean!) { pet @include(if: $all) { name } }'' [])) =
     Returns (Inl (GqlError \<lparr>Message = ''must be defined'', Locations = [(1, 1)]\<rparr>)) \<and>
   length (Operations (projr (parse_known ''query Pets { pet { name { first } } }''))) = 1 \<and>
   Operation 3 stand_ins (Some animals)
       (Some (request ''query Pets { pet { name { first } } }'' [])) =
     Returns (Inl (GqlList
       [\<lparr>Message = ''Field must not have a selection since its type has no subfields.'',
         Locations = [(1, 1)]\<rparr>]))"
  by (simp add: run_defs)

text \<open>
  Claim C6 as amended. When the query parses to a document with exactly one operation and
  the operation name is empty, the call returns neither the operation-name-required error
  nor the not-present error. When moreover the document passes validation, the variables
  are coerced and every top-level selection of that operation is a field, resolution
  succeeds: the call returns that sole operation, with the coerced variables, the query
  text and the schema, its top-level fields in their order and no fragment below them.
  As for claim C3, the last part needs of the document what validation gives, and a bound
  on the recursion above the rank of the top-level fields.
\<close>

theorem sole_operation_selected:
  assumes "Query r \<noteq> []"
    and "ParseQuery ext (Query r) = Inr d"
    and "Operations d = [od]"
    and "OperationName r = []"
  shows "Operation n ext s (Some r) \<noteq> Returns (Inl name_required_error) \<and>
         Operation n ext s (Some r) \<noteq> Returns (Inl (not_present_error (OperationName r))) \<and>
         (Validate ext (schema sch) d = [] \<and>
          VariableValues ext (schema sch) od (Variables r) = Inr vs \<and>
          expansion_contract ext
            \<lparr>op = od, vars = vs, query = Query r, doc = d, inSchema = sch\<rparr> known rank \<and>
          (\<forall>x \<in> set (op_SelectionSet od). \<exists>f. x = FieldSel f \<and> known f \<and> rank f < n) \<longrightarrow>
          (\<exists>opn. Operation n ext (Some sch) (Some r) = Returns (Inr opn) \<and>
                 op opn = od\<lparr>op_SelectionSet := op_SelectionSet (op opn)\<rparr> \<and>
                 vars opn = vs \<and> query opn = Query r \<and> inSchema opn = sch \<and>
                 list_all only_fields (op_SelectionSet (op opn)) \<and>
                 list_all2 same_top_level (op_SelectionSet od) (op_SelectionSet (op opn))))"
proof -
  have sel: "ForName (Operations d) (OperationName r) = Some od"
    and na: "\<not> (length (Operations d) > 1 \<and> OperationName r = [])"
    using assms(3,4) by (simp_all add: ForName_def)
  have "Operation n ext s (Some r) \<noteq> Returns (Inl name_required_error)"
    and "Operation n ext s (Some r) \<noteq> Returns (Inl (not_present_error (OperationName r)))"
    using assms(1,2) sel na
    by (auto simp: Operation_def name_required_error_def not_present_error_def
        split: option.splits sum.splits outcome.splits)
  moreover have "\<exists>opn. Operation n ext (Some sch) (Some r) = Returns (Inr opn) \<and>
                 op opn = od\<lparr>op_SelectionSet := op_SelectionSet (op opn)\<rparr> \<and>
                 vars opn = vs \<and> query opn = Query r \<and> inSchema opn = sch \<and>
                 list_all only_fields (op_SelectionSet (op opn)) \<and>
                 list_all2 same_top_level (op_SelectionSet od) (op_SelectionSet (op opn))"
    if v: "Validate ext (schema sch) d = []"
      and vv: "VariableValues ext (schema sch) od (Variables r) = Inr vs"
      and c: "expansion_contract ext
            \<lparr>op = od, vars = vs, query = Query r, doc = d, inSchema = sch\<rparr> known rank"
      and top: "\<forall>x \<in> set (op_SelectionSet od). \<exists>f. x = FieldSel f \<and> known f \<and> rank f < n"
  proof -
    from Operation_returns [OF assms(1,2) v na sel vv c top] obtain sels where
      "Operation n ext (Some sch) (Some r) =
         Returns (Inr \<lparr>op = od\<lparr>op_SelectionSet := sels\<rparr>, vars = vs,
                      query = Query r, doc = d, inSchema = sch\<rparr>)"
      "list_all only_fields sels" "list_all2 same_top_level (op_SelectionSet od) sels"
      by blast
    then show ?thesis by simp
  qed
  ultimately show ?thesis by blast
qed

theorem sole_operation_selected_witness:
  "\<exists>opn. Operation 3 stand_ins (Some animals)
            (Some (request ''{ pet { name ... on Dog { breed } } }'' [])) = Returns (Inr opn) \<and>
         op opn = query_of [] []
               [FieldSel (pet_field [FieldSel (string_field ''name'' []),
                                     FieldSel (string_field ''breed'' [])])] \<and>
         vars opn = Map.empty \<and> query opn = ''{ pet { name ... on Dog { breed } } }'' \<and>
         inSchema opn = animals"
proof -
  note h_defs = stand_ins_def request_def parse_known_def parsed_documents_def
    validate_leaf_rule_def document_leaf_rule_def required_variables_def ForName_def
    query_of_def satisfies_def example_defs
  let ?q = "''{ pet { name ... on Dog { breed } } }''"
  let ?od = "query_of [] [] [FieldSel (pet_field name_and_dog_breed)]"
  let ?d = "\<lparr>Operations = [?od], Fragments = []\<rparr>"
  have h: "Query (request ?q []) \<noteq> []" "ParseQuery stand_ins (Query (request ?q [])) = Inr ?d"
    "Operations ?d = [?od]" "OperationName (request ?q []) = []"
    by (simp_all add: h_defs)
  have h2: "Validate stand_ins (schema animals) ?d = [] \<and>
      VariableValues stand_ins (schema animals) ?od (Variables (request ?q [])) = Inr Map.empty \<and>
      (\<forall>x \<in> set (op_SelectionSet ?od).
         \<exists>f. x = FieldSel f \<and> f \<in> set example_fields \<and> length (SelectionSet f) < 3)"
    by (simp add: h_defs example_fields_def name_and_dog_breed_def)
  from sole_operation_selected [OF h, where n = 3 and sch = animals and vs = Map.empty
      and known = "\<lambda>f. f \<in> set example_fields" and rank = "\<lambda>f. length (SelectionSet f)"
      and s = "Some animals"]
    example_contract [where od = ?od and vs = Map.empty and q = "Query (request ?q [])"
        and ops = "[?od]"] h2
  obtain opn where
    run: "Operation 3 stand_ins (Some animals) (Some (request ?q [])) = Returns (Inr opn)"
    and rest: "vars opn = Map.empty" "query opn = Query (request ?q [])" "inSchema opn = animals"
    by blast
  have "Operation 3 stand_ins (Some animals) (Some (request ?q [])) =
          Returns (Inr \<lparr>op = query_of [] []
               [FieldSel (pet_field [FieldSel (string_field ''name'' []),
                                     FieldSel (string_field ''breed'' [])])],
        vars = Map.empty, query = ?q, doc = ?d, inSchema = animals\<rparr>)"
    by (simp add: run_defs eval_nat_numeral)
  with run have "op opn = query_of [] []
               [FieldSel (pet_field [FieldSel (string_field ''name'' []),
                                     FieldSel (string_field ''breed'' [])])]"
    by auto
  with run rest show ?thesis by (auto simp: request_def)
qed

text \<open>
  Claim C7 says that every request whose operation name names no operation of the parsed
  document fails with the not-present error. Two requests show otherwise: in the first the
  document does not pass validation, and the validator's list is what is returned; in the
  second the name is empty and the document has a single operation, named \<^verbatim>\<open>Pets\<close>, which
  is selected.
\<close>

theorem unknown_name_counterexample:
  "''Dogs'' \<notin> set (map op_Name (Operations (projr (parse_known ''query Pets { pet { name { first } } }'')))) \<and>
   Operation 3 stand_ins (Some animals) (Some (request ''query Pets { pet { name { first } } }'' ''Dogs'')) =
     Returns (Inl (GqlList
       [\<lparr>Message = ''Field must not have a selection since its type has no subfields.'',
         Locations = [(1, 1)]\<rparr>])) \<and>
   [] \<notin> set (map op_Name (Operations (projr (parse_known ''query Pets { pet { name } }'')))) \<and>
   Operation 3 stand_ins (Some animals) (Some (request ''query Pets { pet { name } }'' [])) =
     Returns (Inr \<lparr>op = query_of ''Pets'' [] [FieldSel (pet_field [FieldSel (string_field ''name'' [])])],
                  vars = Map.empty, query = ''query Pets { pet { name } }'',
                  doc = projr (parse_known ''query Pets { pet { name } }''), inSchema = animals\<rparr>)"
  by (simp add: run_defs eval_nat_numeral)

text \<open>
  Claim C7 as amended. When the query parses, the document passes validation, and the
  operation name is not empty and is the name of no operation of the document, the call
  returns the single error \<^verbatim>\<open>Supplied operation name NAME isn't present in the request.\<close>
  with the supplied name in the place of \<^verbatim>\<open>NAME\<close>, and no operation.
\<close>

theorem unknown_name_error:
  assumes "Query r \<noteq> []"
    and "ParseQuery ext (Query r) = Inr d"
    and "Validate ext (schema sch) d = []"
    and "OperationName r \<noteq> []"
    and "OperationName r \<notin> set (map op_Name (Operations d))"
  shows "Operation n ext (Some sch) (Some r) =
           Returns (Inl (Fundamental
             (''Supplied operation name '' @ OperationName r @
              '' isn't present in the request.'')))"
proof -
  have "find (\<lambda>it. op_Name it = OperationName r) (Operations d) = None"
    using assms(5) by (force simp: find_None_iff)
  then have "ForName (Operations d) (OperationName r) = None"
    using assms(4) by (simp add: ForName_def)
  then show ?thesis
    using assms(1-4) by (simp add: Operation_def not_present_error_def)
qed

theorem unknown_name_error_witness:
  "Operation 3 stand_ins (Some animals) (Some (request ''query Pets { pet { name } }'' ''Dogs'')) =
     Returns (Inl (Fundamental ''Supplied operation name Dogs isn't present in the request.''))"
  using unknown_name_error [of "request ''query Pets { pet { name } }'' ''Dogs''" stand_ins
      "projr (parse_known ''query Pets { pet { name } }'')" animals 3]
  by (simp add: run_defs)

section \<open>Expansion of fragments\<close>

subsection \<open>What the expander leaves alone\<close>

text \<open>
  Claim C9. Whenever the expander returns for a field, the returned field has the alias
  (the response key), the name, the arguments, the directives and the declared type
  definition of the field it was called on: only the selection set is rewritten. The
  rewritten selection set holds, in order, the fields \<^verbatim>\<open>collectFields\<close> gave, each again
  with its attributes unchanged.
\<close>

theorem expansion_keeps_attributes:
  assumes "recursivelyExpandFragmentSelections n ext field opn = Returns field'"
  shows "same_attributes field field' \<and>
         (field' = field \<or>
          (\<exists>sat cs fs.
             satisfies field (inSchema opn) = Returns (Some sat) \<and>
             collectFields ext \<lparr>RawQuery = query opn, ctx_Variables = vars opn, Doc = doc opn\<rparr>
               (SelectionSet field) sat = Some cs \<and>
             SelectionSet field' = map FieldSel fs \<and>
             list_all2 same_attributes (map cf_Field cs) fs))"
  using assms
proof (induction n arbitrary: field field')
  case 0
  then show ?case by simp
next
  case (Suc n)
  let ?ctx = "\<lparr>RawQuery = query opn, ctx_Variables = vars opn, Doc = doc opn\<rparr>"
  show ?case
  proof (cases "satisfies field (inSchema opn) = Returns None")
    case True
    with Suc.prems show ?thesis by simp
  next
    case False
    with Suc.prems obtain sat cs fs
      where sat: "satisfies field (inSchema opn) = Returns (Some sat)"
        and cs: "collectFields ext ?ctx (SelectionSet field) sat = Some cs"
        and fs: "each (\<lambda>f. recursivelyExpandFragmentSelections n ext f opn) (map cf_Field cs)
                   = Returns fs"
        and res: "field' = assign_SelectionSet field (map FieldSel fs)"
      by (auto split: outcome.splits option.splits)
    from each_Returns_D [OF fs]
    have "list_all2 (\<lambda>x y. recursivelyExpandFragmentSelections n ext x opn = Returns y)
            (map cf_Field cs) fs" .
    then have "list_all2 same_attributes (map cf_Field cs) fs"
      by (rule list_all2_mono) (use Suc.IH in blast)
    with sat cs res show ?thesis by auto
  qed
qed

theorem expansion_keeps_attributes_witness:
  "recursivelyExpandFragmentSelections 2 stand_ins (pet_field name_and_dog_breed)
       (bare_operation animals \<lparr>Operations = [], Fragments = []\<rparr>) =
     Returns (pet_field [FieldSel (string_field ''name'' []),
                         FieldSel (string_field ''breed'' [])]) \<and>
   same_attributes (pet_field name_and_dog_breed)
     (pet_field [FieldSel (string_field ''name'' []), FieldSel (string_field ''breed'' [])])"
proof -
  have run: "recursivelyExpandFragmentSelections 2 stand_ins (pet_field name_and_dog_breed)
       (bare_operation animals \<lparr>Operations = [], Fragments = []\<rparr>) =
     Returns (pet_field [FieldSel (string_field ''name'' []),
                         FieldSel (string_field ''breed'' [])])"
    by (simp add: run_defs eval_nat_numeral)
  from expansion_keeps_attributes [OF run] run show ?thesis by simp
qed

subsection \<open>No fragment is left\<close>

text \<open>
  Claim C2. When \<^verbatim>\<open>Operation\<close> returns an operation, every selection reachable from the
  operation's selection set is a field: no fragment spread and no inline fragment is left.
  The validator and \<^verbatim>\<open>collectFields\<close> are parameters, so what the code relies on is stated:
  a document the validator accepts obeys the leaf rule (the expander does not touch the
  selection set of a field of scalar or enum type), and \<^verbatim>\<open>collectFields\<close> keeps that rule.
\<close>

theorem no_fragment_remains:
  assumes ok: "Operation n ext s req = Returns (Inr opn)"
    and validator: "enforces_leaf_rule ext (inSchema opn)"
    and collect: "keeps_leaf_rule ext (inSchema opn)"
  shows "list_all only_fields (op_SelectionSet (op opn))"
proof -
  from ok obtain r :: Request and d sch opdef vs sels
    where valid: "Validate ext (schema sch) d = []"
      and sel: "ForName (Operations d) (OperationName r) = Some opdef"
      and run: "each (expandTopLevel n ext
                  \<lparr>op = opdef, vars = vs, query = Query r, doc = d, inSchema = sch\<rparr>)
                  (op_SelectionSet opdef) = Returns sels"
      and opn: "opn = \<lparr>op = opdef\<lparr>op_SelectionSet := sels\<rparr>, vars = vs, query = Query r,
                        doc = d, inSchema = sch\<rparr>"
    by (rule Operation_success)
  let ?opn0 = "\<lparr>op = opdef, vars = vs, query = Query r, doc = d, inSchema = sch\<rparr>"
  from validator valid opn have docrule: "document_leaf_rule sch d"
    by (simp add: enforces_leaf_rule_def)
  with ForName_mem [OF sel]
  have top: "\<forall>x \<in> set (op_SelectionSet opdef). leaf_rule sch x"
    by (simp add: document_leaf_rule_def)
  have keeps0: "keeps_leaf_rule ext (inSchema ?opn0)" using collect opn by simp
  have doc0: "document_leaf_rule (inSchema ?opn0) (doc ?opn0)" using docrule by simp
  from each_Returns_D [OF run]
  have l2: "list_all2 (\<lambda>x y. expandTopLevel n ext ?opn0 x = Returns y) (op_SelectionSet opdef) sels" .
  have "\<forall>y \<in> set sels. only_fields y"
  proof
    fix y assume "y \<in> set sels"
    with list_all2_right_mem [OF l2] obtain x where x: "x \<in> set (op_SelectionSet opdef)"
      and ex: "expandTopLevel n ext ?opn0 x = Returns y"
      by auto
    from ex obtain f f' where xf: "x = FieldSel f" and yf: "y = FieldSel f'"
      and run: "recursivelyExpandFragmentSelections n ext f ?opn0 = Returns f'"
      by (cases x) (auto split: outcome.splits)
    from top x xf have "leaf_rule_in (inSchema ?opn0) f" by auto
    from expand_only_fields [OF keeps0 doc0 this run] yf show "only_fields y" by simp
  qed
  with opn show ?thesis by (simp add: list_all_iff)
qed

theorem no_fragment_remains_witness:
  "Operation 3 stand_ins (Some animals)
       (Some (request ''{ pet { name ... on Dog { breed } } }'' [])) =
     Returns (Inr \<lparr>op = query_of [] []
               [FieldSel (pet_field [FieldSel (string_field ''name'' []),
                                     FieldSel (string_field ''breed'' [])])],
        vars = Map.empty, query = ''{ pet { name ... on Dog { breed } } }'',
        doc = \<lparr>Operations = [query_of [] [] [FieldSel (pet_field name_and_dog_breed)]],
               Fragments = []\<rparr>,
        inSchema = animals\<rparr>) \<and>
   list_all only_fields
     [FieldSel (pet_field [FieldSel (string_field ''name'' []),
                           FieldSel (string_field ''breed'' [])])]"
proof -
  let ?opn = "\<lparr>op = query_of [] []
               [FieldSel (pet_field [FieldSel (string_field ''name'' []),
                                     FieldSel (string_field ''breed'' [])])],
        vars = Map.empty, query = ''{ pet { name ... on Dog { breed } } }'',
        doc = \<lparr>Operations = [query_of [] [] [FieldSel (pet_field name_and_dog_breed)]],
               Fragments = []\<rparr>,
        inSchema = animals\<rparr>"
  have run: "Operation 3 stand_ins (Some animals)
       (Some (request ''{ pet { name ... on Dog { breed } } }'' [])) = Returns (Inr ?opn)"
    by (simp add: run_defs eval_nat_numeral)
  have v: "enforces_leaf_rule stand_ins (inSchema ?opn)"
    by (rule leaf_rule_validator_enforces) (simp add: stand_ins_def)
  have c: "keeps_leaf_rule stand_ins (inSchema ?opn)"
    by (rule model_keeps_leaf_rule [where n = 8]) (simp add: stand_ins_def)
  from no_fragment_remains [OF run v c] run show ?thesis
    by (simp add: query_of_def)
qed

subsection \<open>A fragment at the top level\<close>

text \<open>
  Claim C5. When the six checks pass and the selected operation has a top-level selection
  that is not a field (a fragment spread or an inline fragment), the call returns neither an
  operation nor an error, whatever the bound on the recursion; and when the expansion of
  the top-level selections before it returns, the type assertion of line 79 panics.
\<close>

theorem top_level_fragment_panics:
  assumes "Query r \<noteq> []"
    and "ParseQuery ext (Query r) = Inr d"
    and "Validate ext (schema sch) d = []"
    and "\<not> (length (Operations d) > 1 \<and> OperationName r = [])"
    and "ForName (Operations d) (OperationName r) = Some od"
    and "VariableValues ext (schema sch) od (Variables r) = Inr vs"
    and "op_SelectionSet od = before @ x # after"
    and "\<forall>f. x \<noteq> FieldSel f"
  shows "Operation n ext (Some sch) (Some r) \<noteq> Returns res \<and>
         (each (expandTopLevel n ext
                  \<lparr>op = od, vars = vs, query = Query r, doc = d, inSchema = sch\<rparr>) before
            = Returns bs \<longrightarrow>
          Operation n ext (Some sch) (Some r) = Panics)"
proof -
  let ?opn = "\<lparr>op = od, vars = vs, query = Query r, doc = d, inSchema = sch\<rparr>"
  from assms(8) have "expandTopLevel n ext ?opn x = Panics"
    by (cases x) simp_all
  from each_stops_at_panic [where g = "expandTopLevel n ext ?opn" and x = x, OF this]
  have e: "each (expandTopLevel n ext ?opn) (op_SelectionSet od) =
        (case each (expandTopLevel n ext ?opn) before of
           Returns ys \<Rightarrow> Panics | Panics \<Rightarrow> Panics | Unfinished \<Rightarrow> Unfinished)"
    using assms(7) by simp
  have "Operation n ext (Some sch) (Some r) =
        (case each (expandTopLevel n ext ?opn) before of
           Returns ys \<Rightarrow> Panics | Panics \<Rightarrow> Panics | Unfinished \<Rightarrow> Unfinished)"
    using assms(1-6) by (simp add: Operation_def e split: outcome.splits)
  then show ?thesis by (simp split: outcome.splits)
qed

theorem top_level_fragment_panics_witness:
  "Operation 3 stand_ins (Some animals)
     (Some (request ''{ pet { name } ... on Query { pet { name } } }'' [])) = Panics \<and>
   Operation 3 stand_ins (Some animals)
     (Some (request ''{ ...PetName } fragment PetName on Query { pet { name } }'' [])) = Panics"
proof -
  have inline: "Operation 3 stand_ins (Some animals)
     (Some (request ''{ pet { name } ... on Query { pet { name } } }'' [])) = Panics"
    using top_level_fragment_panics [where n = 3 and ext = stand_ins and sch = animals
      and r = "request ''{ pet { name } ... on Query { pet { name } } }'' []"
      and d = "projr (parse_known ''{ pet { name } ... on Query { pet { name } } }'')"
      and od = "query_of [] []
                  [FieldSel (pet_field [FieldSel (string_field ''name'' [])]),
                   InlineFragment ''Query''
                     [FieldSel (pet_field [FieldSel (string_field ''name'' [])])]]"
      and vs = Map.empty
      and before = "[FieldSel (pet_field [FieldSel (string_field ''name'' [])])]"
      and x = "InlineFragment ''Query''
                 [FieldSel (pet_field [FieldSel (string_field ''name'' [])])]"
      and after = "[]"
      and bs = "[FieldSel (pet_field [FieldSel (string_field ''name'' [])])]"]
    by (simp add: run_defs eval_nat_numeral)
  have spread: "Operation 3 stand_ins (Some animals)
     (Some (request ''{ ...PetName } fragment PetName on Query { pet { name } }'' [])) = Panics"
    using top_level_fragment_panics [where n = 3 and ext = stand_ins and sch = animals
      and r = "request ''{ ...PetName } fragment PetName on Query { pet { name } }'' []"
      and d = "projr (parse_known ''{ ...PetName } fragment PetName on Query { pet { name } }'')"
      and od = "query_of [] [] [FragmentSpread ''PetName'']"
      and vs = Map.empty and before = "[]" and x = "FragmentSpread ''PetName''"
      and after = "[]" and bs = "[]"]
    by (simp add: run_defs)
  from inline spread show ?thesis by simp
qed

end
